theory Spec2Isabelle
  imports Complex_Main
begin

section \<open>The streaming audio processor (services/stt.py)\<close>

text \<open>
  \<^verbatim>\<open>StreamingAudioProcessor\<close> is embedded as a record of the fields its methods read
  and write, each method as a function from the record to the updated record.
  \<^verbatim>\<open>time.time()\<close> is passed in as a rational number of seconds. The audio queue
  holds byte chunks and the shutdown sentinel \<^verbatim>\<open>None\<close> that \<^verbatim>\<open>stop()\<close> enqueues, so an
  item is a \<^typ>\<open>string option\<close>. The worker thread is not part of a method's body: what
  it does is given by the functions of its own (\<open>audio_generator_next\<close>, \<open>stream_audio\<close>,
  \<open>process_response\<close>, \<open>check_silence\<close>), each one atomic step of the worker, and the
  bounded \<^verbatim>\<open>join\<close> of \<^verbatim>\<open>stop()\<close> changes no field.
\<close>

type_synonym bytes = string

record processor =
  audio_queue :: "bytes option list"
  is_running :: bool
  is_listening :: bool
  stream_thread :: bool
  current_transcript :: string
  last_final_time :: "rat option"
  restart_count :: nat
  last_restart_time :: rat
  active_stream :: bool
  last_audio_time :: rat

definition SILENCE_THRESHOLD :: rat where
  "SILENCE_THRESHOLD = 3"

definition max_restarts :: nat where
  "max_restarts = 10"

definition restart_cooldown :: rat where
  "restart_cooldown = 2"

definition queue_maxsize :: nat where
  "queue_maxsize = 100"

text \<open>The constructor; \<open>now\<close> is the \<^verbatim>\<open>time.time()\<close> read for \<^verbatim>\<open>last_audio_time\<close>.\<close>

definition init_processor :: "rat \<Rightarrow> processor" where
  "init_processor now =
     \<lparr> audio_queue = [], is_running = False, is_listening = False, stream_thread = False,
       current_transcript = [], last_final_time = None, restart_count = 0,
       last_restart_time = 0, active_stream = False, last_audio_time = now \<rparr>"

definition start :: "processor \<Rightarrow> processor" where
  "start p =
     (if is_running p then p
      else p\<lparr> is_running := True, is_listening := True, restart_count := 0,
              last_restart_time := 0, stream_thread := True \<rparr>)"

text \<open>
  \<^verbatim>\<open>stop()\<close> empties the queue and then puts the sentinel \<^verbatim>\<open>None\<close> into it.
\<close>

definition stop :: "processor \<Rightarrow> processor" where
  "stop p =
     (if \<not> is_running p then p
      else p\<lparr> is_running := False, is_listening := False, audio_queue := [None],
              active_stream := False \<rparr>)"

definition mute :: "processor \<Rightarrow> processor" where
  "mute p = p\<lparr> is_listening := False, current_transcript := [], last_final_time := None \<rparr>"

definition unmute :: "processor \<Rightarrow> processor" where
  "unmute p = p\<lparr> is_listening := True, current_transcript := [], last_final_time := None \<rparr>"

text \<open>
  \<^verbatim>\<open>add_audio\<close>: nothing when not running; otherwise the time is recorded and the chunk
  is put without blocking, and on a full queue the oldest item is taken out first.
\<close>

definition add_audio :: "processor \<Rightarrow> rat \<Rightarrow> bytes \<Rightarrow> processor" where
  "add_audio p now audio_bytes =
     (if is_running p then
        (let p1 = p\<lparr> last_audio_time := now \<rparr> in
         if length (audio_queue p1) < queue_maxsize
         then p1\<lparr> audio_queue := audio_queue p1 @ [Some audio_bytes] \<rparr>
         else p1\<lparr> audio_queue := tl (audio_queue p1) @ [Some audio_bytes] \<rparr>)
      else p)"

text \<open>
  One \<^verbatim>\<open>audio_queue.get\<close> of the worker that finds an item: the head leaves the queue.
  A \<^verbatim>\<open>get\<close> that was already waiting when \<^verbatim>\<open>stop()\<close> ran takes the sentinel this way.
\<close>

definition queue_get :: "processor \<Rightarrow> processor" where
  "queue_get p = p\<lparr> audio_queue := tl (audio_queue p) \<rparr>"

subsection \<open>Sequences of the externally callable operations\<close>

datatype operation = Start | Stop | Mute | Unmute

fun apply_operation :: "processor \<Rightarrow> operation \<Rightarrow> processor" where
  "apply_operation p Start = start p"
| "apply_operation p Stop = stop p"
| "apply_operation p Mute = mute p"
| "apply_operation p Unmute = unmute p"

text \<open>The states after each operation of a sequence, in order.\<close>

fun states_after :: "processor \<Rightarrow> operation list \<Rightarrow> processor list" where
  "states_after p [] = []"
| "states_after p (x # xs) = apply_operation p x # states_after (apply_operation p x) xs"

definition listening_implies_running :: "processor \<Rightarrow> bool" where
  "listening_implies_running p = (is_listening p \<longrightarrow> is_running p)"

text \<open>\<open>unmute_while_running p ops\<close>: every \<^verbatim>\<open>unmute()\<close> of the sequence is called on a
  running processor.\<close>

fun unmute_while_running :: "processor \<Rightarrow> operation list \<Rightarrow> bool" where
  "unmute_while_running p [] = True"
| "unmute_while_running p (x # xs) =
     ((x = Unmute \<longrightarrow> is_running p) \<and> unmute_while_running (apply_operation p x) xs)"

text \<open>
  For the audio queue: the calls that reach a processor from the session's event handlers
  (\<^verbatim>\<open>start\<close>, \<^verbatim>\<open>stop\<close>, \<^verbatim>\<open>mute\<close>, \<^verbatim>\<open>unmute\<close>, \<^verbatim>\<open>add_audio\<close>) and the worker's \<^verbatim>\<open>get\<close>.
\<close>

datatype call =
  CallStart | CallStop | CallMute | CallUnmute | CallAddAudio rat bytes | CallQueueGet

fun apply_call :: "processor \<Rightarrow> call \<Rightarrow> processor" where
  "apply_call p CallStart = start p"
| "apply_call p CallStop = stop p"
| "apply_call p CallMute = mute p"
| "apply_call p CallUnmute = unmute p"
| "apply_call p (CallAddAudio now b) = add_audio p now b"
| "apply_call p CallQueueGet = queue_get p"

fun run_calls :: "processor \<Rightarrow> call list \<Rightarrow> processor" where
  "run_calls p [] = p"
| "run_calls p (x # xs) = run_calls (apply_call p x) xs"

text \<open>While not running, the queue holds no audio: at most the sentinel.\<close>

definition idle_queue_has_no_audio :: "processor \<Rightarrow> bool" where
  "idle_queue_has_no_audio p = (is_running p \<or> set (audio_queue p) \<subseteq> {None})"

section \<open>Python values used by the services\<close>

text \<open>
  Text is a \<^typ>\<open>string\<close> of ASCII characters. \<^verbatim>\<open>str.lower\<close> maps \<open>A\<close>--\<open>Z\<close> to \<open>a\<close>--\<open>z\<close> and
  leaves every other character; whitespace is what \<^verbatim>\<open>str.isspace\<close> accepts below 128.
\<close>

definition is_space :: "char \<Rightarrow> bool" where
  "is_space c =
     (c \<in> set [CHR 0x09, CHR 0x0A, CHR 0x0B, CHR 0x0C, CHR 0x0D,
                CHR 0x1C, CHR 0x1D, CHR 0x1E, CHR 0x1F, CHR '' ''])"

definition lower_char :: "char \<Rightarrow> char" where
  "lower_char c =
     (case map_of (zip ''ABCDEFGHIJKLMNOPQRSTUVWXYZ'' ''abcdefghijklmnopqrstuvwxyz'') c of
        Some d \<Rightarrow> d
      | None \<Rightarrow> c)"

definition lower :: "string \<Rightarrow> string" where
  "lower s = map lower_char s"

definition lstrip :: "string \<Rightarrow> string" where
  "lstrip s = dropWhile is_space s"

definition rstrip :: "string \<Rightarrow> string" where
  "rstrip s = rev (dropWhile is_space (rev s))"

definition strip :: "string \<Rightarrow> string" where
  "strip s = rstrip (lstrip s)"

definition isspace :: "string \<Rightarrow> bool" where
  "isspace s = (s \<noteq> [] \<and> list_all is_space s)"

fun startswith :: "string \<Rightarrow> string \<Rightarrow> bool" where
  "startswith s [] = True"
| "startswith [] (p # ps) = False"
| "startswith (c # s) (p # ps) = (c = p \<and> startswith s ps)"

definition endswith :: "string \<Rightarrow> string \<Rightarrow> bool" where
  "endswith s suffix = startswith (rev s) (rev suffix)"

text \<open>\<open>contains s sub\<close> is Python's \<^verbatim>\<open>sub in s\<close> on strings.\<close>

fun contains :: "string \<Rightarrow> string \<Rightarrow> bool" where
  "contains [] sub = (sub = [])"
| "contains (c # s) sub = (startswith (c # s) sub \<or> contains s sub)"

text \<open>\<^verbatim>\<open>str.split()\<close> with no argument: the maximal runs of characters that are not
  whitespace. \<open>w\<close> is the word being read.\<close>

fun split_words :: "string \<Rightarrow> string \<Rightarrow> string list" where
  "split_words [] w = (if w = [] then [] else [w])"
| "split_words (c # cs) w =
     (if is_space c then (if w = [] then split_words cs [] else w # split_words cs [])
      else split_words cs (w @ [c]))"

definition py_split :: "string \<Rightarrow> string list" where
  "py_split s = split_words s []"

text \<open>\<^verbatim>\<open>str(n)\<close> of an integer, as the f-strings print it.\<close>

definition digit_char :: "nat \<Rightarrow> char" where
  "digit_char d = ''0123456789'' ! d"

function str_nat :: "nat \<Rightarrow> string" where
  "str_nat n = (if n < 10 then [digit_char n] else str_nat (n div 10) @ [digit_char (n mod 10)])"
  by pat_completeness auto
termination
  by (relation "measure (\<lambda>n. n)") auto

declare str_nat.simps [simp del]

definition str_int :: "int \<Rightarrow> string" where
  "str_int i = (if i < 0 then CHR ''-'' # str_nat (nat (- i)) else str_nat (nat i))"

text \<open>
  The values held in the dictionaries of the turn history, of the outbound events and of
  a parsed reply: \<^verbatim>\<open>None\<close>, booleans, integers and text. A dictionary is an association
  list in insertion order.
\<close>

datatype pyval = PyNone | PyBool bool | PyInt int | PyStr string

type_synonym pydict = "(string \<times> pyval) list"

datatype py_error = KeyError | TypeError | AttributeError

definition has_key :: "pydict \<Rightarrow> string \<Rightarrow> bool" where
  "has_key d k = (map_of d k \<noteq> None)"

definition dict_get :: "pydict \<Rightarrow> string \<Rightarrow> pyval \<Rightarrow> pyval" where
  "dict_get d k dflt = (case map_of d k of None \<Rightarrow> dflt | Some v \<Rightarrow> v)"

definition dict_item :: "pydict \<Rightarrow> string \<Rightarrow> py_error + pyval" where
  "dict_item d k = (case map_of d k of None \<Rightarrow> Inl KeyError | Some v \<Rightarrow> Inr v)"

fun truthy :: "pyval \<Rightarrow> bool" where
  "truthy PyNone = False"
| "truthy (PyBool b) = b"
| "truthy (PyInt i) = (i \<noteq> 0)"
| "truthy (PyStr s) = (s \<noteq> [])"

text \<open>\<^verbatim>\<open>v > 0\<close>: a boolean compares as 0 or 1, text and \<^verbatim>\<open>None\<close> raise \<^verbatim>\<open>TypeError\<close>.\<close>

fun greater_than_zero :: "pyval \<Rightarrow> py_error + bool" where
  "greater_than_zero (PyInt i) = Inr (0 < i)"
| "greater_than_zero (PyBool b) = Inr b"
| "greater_than_zero (PyStr s) = Inl TypeError"
| "greater_than_zero PyNone = Inl TypeError"

section \<open>Stop intent and question counting (services/flow.py)\<close>

definition MIN_QUESTIONS :: nat where
  "MIN_QUESTIONS = 4"

definition MAX_QUESTIONS :: nat where
  "MAX_QUESTIONS = 10"

definition get_question_count :: "pydict list \<Rightarrow> nat" where
  "get_question_count chat_history =
     foldl (\<lambda>count entry.
              if has_key entry ''interviewer'' \<and> \<not> has_key entry ''resume'' then count + 1
              else count)
       0 chat_history"

definition stop_phrases :: "string list" where
  "stop_phrases =
     [''stop the interview'', ''end the interview'', ''stop interview'', ''end interview'',
      ''finish interview'', ''conclude interview'', ''that's all'', ''i'm done'',
      ''no more questions'']"

definition check_stop_command :: "string \<Rightarrow> bool" where
  "check_stop_command text =
     (let text_lower = lower text in list_ex (\<lambda>phrase. contains text_lower phrase) stop_phrases)"

section \<open>Report assembly (services/report.py)\<close>

text \<open>
  The loop of \<^verbatim>\<open>generate_dynamic_report\<close> that builds \<^verbatim>\<open>qa_pairs\<close> and \<^verbatim>\<open>scores\<close>, from index
  \<open>i\<close> on. \<^verbatim>\<open>score > 0\<close> raises on a score that is no number; the exception leaves the
  loop.
\<close>

definition no_evaluation :: string where
  "no_evaluation = ''Response received and being evaluated''"

function qa_loop ::
  "pydict list \<Rightarrow> nat \<Rightarrow> pydict list \<Rightarrow> pyval list \<Rightarrow> py_error + (pydict list \<times> pyval list)"
where
  "qa_loop chat_history i qa_pairs scores =
     (if i < length chat_history then
        (if has_key (chat_history ! i) ''interviewer'' \<and> \<not> has_key (chat_history ! i) ''resume''
         then
           (if i + 1 < length chat_history \<and> has_key (chat_history ! (i + 1)) ''candidate''
            then
              (let question = dict_get (chat_history ! i) ''interviewer'' (PyStr []);
                   answer = dict_get (chat_history ! (i + 1)) ''candidate'' (PyStr []);
                   later = (i + 2 < length chat_history
                            \<and> has_key (chat_history ! (i + 2)) ''interviewer'');
                   evaluation =
                     (if later then dict_get (chat_history ! (i + 2)) ''evaluation'' (PyStr [])
                      else PyStr []);
                   score =
                     (if later then dict_get (chat_history ! (i + 2)) ''score'' (PyInt 0)
                      else PyInt 0);
                   pair = [(''question'', question), (''answer'', answer), (''score'', score),
                           (''evaluation'',
                              if truthy evaluation then evaluation else PyStr no_evaluation)]
               in case greater_than_zero score of
                    Inl e \<Rightarrow> Inl e
                  | Inr positive \<Rightarrow>
                      qa_loop chat_history (i + 1) (qa_pairs @ [pair])
                        (if positive then scores @ [score] else scores))
            else qa_loop chat_history (i + 1) qa_pairs scores)
         else qa_loop chat_history (i + 1) qa_pairs scores)
      else Inr (qa_pairs, scores))"
  by pat_completeness auto
termination
  by (relation "measure (\<lambda>(chat_history, i, qa_pairs, scores). length chat_history - i)") auto

declare qa_loop.simps [simp del]

text \<open>
  The pairing in words: index \<open>i\<close> is paired when entry \<open>i\<close> is an interviewer turn that is
  not the metadata and entry \<open>i + 1\<close> is a candidate turn; its score and evaluation are
  read two entries later.
\<close>

definition is_paired :: "pydict list \<Rightarrow> nat \<Rightarrow> bool" where
  "is_paired h i =
     (has_key (h ! i) ''interviewer'' \<and> \<not> has_key (h ! i) ''resume''
      \<and> i + 1 < length h \<and> has_key (h ! (i + 1)) ''candidate'')"

definition has_later_turn :: "pydict list \<Rightarrow> nat \<Rightarrow> bool" where
  "has_later_turn h i = (i + 2 < length h \<and> has_key (h ! (i + 2)) ''interviewer'')"

definition later_score :: "pydict list \<Rightarrow> nat \<Rightarrow> pyval" where
  "later_score h i =
     (if has_later_turn h i then dict_get (h ! (i + 2)) ''score'' (PyInt 0) else PyInt 0)"

definition later_evaluation :: "pydict list \<Rightarrow> nat \<Rightarrow> pyval" where
  "later_evaluation h i =
     (if has_later_turn h i then dict_get (h ! (i + 2)) ''evaluation'' (PyStr []) else PyStr [])"

definition pair_at :: "pydict list \<Rightarrow> nat \<Rightarrow> pydict" where
  "pair_at h i =
     [(''question'', dict_get (h ! i) ''interviewer'' (PyStr [])),
      (''answer'', dict_get (h ! (i + 1)) ''candidate'' (PyStr [])),
      (''score'', later_score h i),
      (''evaluation'',
         if truthy (later_evaluation h i) then later_evaluation h i else PyStr no_evaluation)]"

definition is_number :: "pyval \<Rightarrow> bool" where
  "is_number v = (case v of PyInt i \<Rightarrow> True | PyBool b \<Rightarrow> True | _ \<Rightarrow> False)"

text \<open>The indices the loop pairs, in order.\<close>

definition paired_indices :: "pydict list \<Rightarrow> nat list" where
  "paired_indices h = filter (is_paired h) [1..<length h]"

text \<open>The history \<open>[metadata, Q1, A1, Q2, A2]\<close> of the report-pairing property, with the
  evaluation and score of A1 on Q2.\<close>

definition example_history :: "pydict list" where
  "example_history =
     [[(''resume'', PyStr ''cv''), (''jd'', PyStr ''dev''), (''question_type'', PyStr ''t'')],
      [(''interviewer'', PyStr ''Q1''), (''evaluation'', PyStr ''e1''), (''score'', PyInt 9)],
      [(''candidate'', PyStr ''A1'')],
      [(''interviewer'', PyStr ''Q2''), (''evaluation'', PyStr ''fair''), (''score'', PyInt 6)],
      [(''candidate'', PyStr ''A2'')]]"

subsection \<open>The rule-based analysis\<close>

text \<open>
  \<^verbatim>\<open>generate_fallback_analysis(avg_score, qa_count, qa_pairs)\<close>. The average score is a
  rational number, the count an integer. \<^verbatim>\<open>qa['answer']\<close> raises \<^verbatim>\<open>KeyError\<close> on a pair
  without that key, and \<^verbatim>\<open>.split()\<close> raises \<^verbatim>\<open>AttributeError\<close> on an answer that is not text.
  The record holds the keys of the result whose values neither print nor round the
  floating-point average: \<^verbatim>\<open>overall_evaluation\<close> and \<^verbatim>\<open>technical_assessment\<close> are left out.
\<close>

record analysis =
  recommendation :: string
  key_strengths :: "string list"
  areas_for_improvement :: "string list"
  resume_alignment :: string
  job_fit :: string
  next_steps :: string

fun answers_of :: "pydict list \<Rightarrow> py_error + string list" where
  "answers_of [] = Inr []"
| "answers_of (qa # qas) =
     (case dict_item qa ''answer'' of
        Inl e \<Rightarrow> Inl e
      | Inr (PyStr s) \<Rightarrow>
          (case answers_of qas of Inl e \<Rightarrow> Inl e | Inr ss \<Rightarrow> Inr (s # ss))
      | Inr _ \<Rightarrow> Inl AttributeError)"

definition uncertain_phrases :: "string list" where
  "uncertain_phrases = [''don't remember'', ''don't know'', ''not sure'', ''maybe'', ''i think'']"

definition strengths_filler :: string where
  "strengths_filler = ''Maintained professional demeanor throughout interview''"

definition improvements_filler :: string where
  "improvements_filler =
     ''Requires more hands-on experience with technologies mentioned in resume''"

text \<open>The two \<^verbatim>\<open>while len(...) < 3: append\<close> loops.\<close>

function pad_strengths :: "string list \<Rightarrow> string list" where
  "pad_strengths strengths =
     (if length strengths < 3 then pad_strengths (strengths @ [strengths_filler])
      else strengths)"
  by pat_completeness auto
termination
  by (relation "measure (\<lambda>strengths. 3 - length strengths)") auto

declare pad_strengths.simps [simp del]

function pad_improvements :: "string list \<Rightarrow> string list" where
  "pad_improvements improvements =
     (if length improvements < 3 then pad_improvements (improvements @ [improvements_filler])
      else improvements)"
  by pat_completeness auto
termination
  by (relation "measure (\<lambda>improvements. 3 - length improvements)") auto

declare pad_improvements.simps [simp del]

text \<open>The lists \<^verbatim>\<open>strengths\<close> and \<^verbatim>\<open>improvements\<close> after the four \<^verbatim>\<open>if\<close> statements, before the
  padding.\<close>

definition collect_points ::
  "rat \<Rightarrow> int \<Rightarrow> nat \<Rightarrow> nat \<Rightarrow> string list \<times> string list" where
  "collect_points avg_score qa_count short_answers unclear_answers =
     (let (s1, i1) =
            (if 8 \<le> qa_count
             then ([''Completed comprehensive interview ('' @ str_int qa_count @ '' questions)''],
                   [])
             else ([],
                   [''Interview concluded early with only '' @ str_int qa_count
                      @ '' questions covered'']));
          (s2, i2) =
            (if unclear_answers = 0
             then (s1 @ [''Provided confident responses without hesitation''], i1)
             else (s1, i1 @ [''Showed uncertainty in '' @ str_nat unclear_answers
                      @ '' responses, indicating knowledge gaps'']));
          (s3, i3) =
            (if of_nat short_answers < (of_int qa_count :: rat) / 2
             then (s2 @ [''Generally provided detailed explanations''], i2)
             else (s2, i2 @ [''Many responses were brief ('' @ str_nat short_answers @ ''/''
                      @ str_int qa_count @ ''), lacking technical depth'']))
      in if 7 \<le> avg_score
         then (s3 @ [''Demonstrated solid technical foundation''],
               i3 @ [''Could improve by providing more specific examples''])
         else (s3,
               i3 @ [''Needs to strengthen core technical knowledge and practical experience'',
                     ''Should work on articulating technical concepts more clearly'']))"

definition generate_fallback_analysis ::
  "rat \<Rightarrow> int \<Rightarrow> pydict list \<Rightarrow> py_error + analysis" where
  "generate_fallback_analysis avg_score qa_count qa_pairs =
     (case answers_of qa_pairs of
        Inl e \<Rightarrow> Inl e
      | Inr answers \<Rightarrow>
          (let short_answers = length (filter (\<lambda>a. length (py_split a) < 15) answers);
               unclear_answers =
                 length (filter (\<lambda>a. list_ex (\<lambda>word. contains (lower a) word) uncertain_phrases)
                   answers);
               (strengths, improvements) =
                 collect_points avg_score qa_count short_answers unclear_answers
           in Inr \<lparr>
                recommendation =
                  (if 8 \<le> avg_score \<and> unclear_answers = 0
                   then ''Strong Hire - Demonstrated excellent technical competence and clear communication''
                   else if 7 \<le> avg_score \<and> unclear_answers \<le> 1
                   then ''Hire - Good technical foundation with clear potential''
                   else if 6 \<le> avg_score
                   then ''Maybe - Some potential but notable gaps identified''
                   else if 5 \<le> avg_score
                   then ''Maybe - Needs significant development''
                   else ''No Hire - Significant skill gaps and communication issues''),
                key_strengths = take 3 (pad_strengths strengths),
                areas_for_improvement = take 3 (pad_improvements improvements),
                resume_alignment =
                  ''Based on '' @ str_int qa_count @ '' questions, candidate's responses ''
                    @ (if 7 \<le> avg_score then ''align well with'' else ''show discrepancies from'')
                    @ '' resume claims.'',
                job_fit =
                  ''Candidate demonstrates ''
                    @ (if 15 / 2 \<le> avg_score then ''strong''
                       else if 6 \<le> avg_score then ''partial'' else ''limited'')
                    @ '' alignment with job requirements.'',
                next_steps =
                  (if 15 / 2 \<le> avg_score then ''Proceed to technical round with senior engineer''
                   else if 6 \<le> avg_score then ''Consider additional screening''
                   else ''Thank candidate for their time, not proceeding'') \<rparr>))"

definition has_text_answer :: "pydict \<Rightarrow> bool" where
  "has_text_answer qa = (case map_of qa ''answer'' of Some (PyStr s) \<Rightarrow> True | _ \<Rightarrow> False)"

subsection \<open>The report and its fallback\<close>

text \<open>
  Of the dictionary a report is, the record keeps \<^verbatim>\<open>total_questions\<close> and \<^verbatim>\<open>detailed_qa\<close>;
  the timestamp, the candidate details, the score statistics and the analysis are not
  modelled. \<open>average\<close> is the mean of the positive scores before it is rounded to two
  decimals.
\<close>

record report =
  total_questions :: nat
  detailed_qa :: "pydict list"

fun is_text :: "pyval \<Rightarrow> bool" where
  "is_text (PyStr s) = True"
| "is_text v = False"

fun number_value :: "pyval \<Rightarrow> int" where
  "number_value (PyInt i) = i"
| "number_value (PyBool b) = (if b then 1 else 0)"
| "number_value v = 0"

definition average :: "pyval list \<Rightarrow> rat" where
  "average scores =
     (if scores = [] then 0
      else of_int (sum_list (map number_value scores)) / of_nat (length scores))"

text \<open>
  The loop of \<^verbatim>\<open>generate_fallback_report\<close>: the score is read from the entry of the
  question itself, and a pair is kept when its answer is not empty.
\<close>

function fallback_loop ::
  "pydict list \<Rightarrow> nat \<Rightarrow> pydict list \<Rightarrow> pyval list \<Rightarrow> py_error + (pydict list \<times> pyval list)"
where
  "fallback_loop chat_history i qa_pairs scores =
     (if i < length chat_history then
        (if has_key (chat_history ! i) ''interviewer'' then
           (let question = dict_get (chat_history ! i) ''interviewer'' (PyStr []);
                score = dict_get (chat_history ! i) ''score'' (PyInt 0);
                answer =
                  (if i + 1 < length chat_history \<and> has_key (chat_history ! (i + 1)) ''candidate''
                   then dict_get (chat_history ! (i + 1)) ''candidate'' (PyStr [])
                   else PyStr [])
            in if truthy answer then
                 (case greater_than_zero score of
                    Inl e \<Rightarrow> Inl e
                  | Inr positive \<Rightarrow>
                      fallback_loop chat_history (i + 1)
                        (qa_pairs @ [[(''question'', question), (''answer'', answer),
                                      (''score'', score)]])
                        (if positive then scores @ [score] else scores))
               else fallback_loop chat_history (i + 1) qa_pairs scores)
         else fallback_loop chat_history (i + 1) qa_pairs scores)
      else Inr (qa_pairs, scores))"
  by pat_completeness auto
termination
  by (relation "measure (\<lambda>(chat_history, i, qa_pairs, scores). length chat_history - i)") auto

declare fallback_loop.simps [simp del]

text \<open>\<^verbatim>\<open>generate_fallback_report\<close>: any exception inside it gives \<^verbatim>\<open>None\<close>.\<close>

definition generate_fallback_report :: "pydict list \<Rightarrow> report option" where
  "generate_fallback_report chat_history =
     (case fallback_loop chat_history 1 [] [] of
        Inl e \<Rightarrow> None
      | Inr (qa_pairs, scores) \<Rightarrow>
          (case generate_fallback_analysis (average scores) (int (length qa_pairs)) qa_pairs of
             Inl e \<Rightarrow> None
           | Inr analysis \<Rightarrow>
               Some \<lparr> total_questions = length qa_pairs, detailed_qa = qa_pairs \<rparr>))"

text \<open>\<^verbatim>\<open>generate_minimal_report\<close> takes the length and a slice of the resume and of the job
  description, which raises \<^verbatim>\<open>TypeError\<close> on a value that is not text.\<close>

definition generate_minimal_report :: "pydict list \<Rightarrow> pyval \<Rightarrow> pyval \<Rightarrow> py_error + report" where
  "generate_minimal_report qa_pairs resume jd =
     (if is_text resume \<and> is_text jd
      then Inr \<lparr> total_questions = length qa_pairs, detailed_qa = qa_pairs \<rparr>
      else Inl TypeError)"

text \<open>
  \<^verbatim>\<open>generate_dynamic_report\<close>. Its whole body stands in a \<^verbatim>\<open>try\<close> whose handler returns
  \<^verbatim>\<open>generate_fallback_report\<close>. After the loop, a history without a positive score gives the
  minimal report. Otherwise the transcript is written, the prompt slices the resume and the
  job description (\<^verbatim>\<open>TypeError\<close> on a value that is not text), the analysis is requested from
  the backend and its reply read: \<open>analysis_raises\<close> says whether an exception leaves these
  lines (the request itself, the reading of the reply, the rule-based analysis on a reply
  that cannot be used).
\<close>

definition generate_dynamic_report :: "bool \<Rightarrow> pydict list \<Rightarrow> report option" where
  "generate_dynamic_report analysis_raises chat_history =
     (if length chat_history < 2 then None
      else
        (let resume = dict_get (chat_history ! 0) ''resume'' (PyStr ''N/A'');
             jd = dict_get (chat_history ! 0) ''jd'' (PyStr ''N/A'')
         in case qa_loop chat_history 1 [] [] of
              Inl e \<Rightarrow> generate_fallback_report chat_history
            | Inr (qa_pairs, scores) \<Rightarrow>
                (if scores = [] then
                   (case generate_minimal_report qa_pairs resume jd of
                      Inl e \<Rightarrow> generate_fallback_report chat_history
                    | Inr r \<Rightarrow> Some r)
                 else if \<not> (is_text resume \<and> is_text jd) \<or> analysis_raises
                 then generate_fallback_report chat_history
                 else Some \<lparr> total_questions = length qa_pairs, detailed_qa = qa_pairs \<rparr>)))"

text \<open>The resume and the job description of the metadata entry are text (or absent).\<close>

definition metadata_is_text :: "pydict list \<Rightarrow> bool" where
  "metadata_is_text h =
     (is_text (dict_get (h ! 0) ''resume'' (PyStr ''N/A''))
      \<and> is_text (dict_get (h ! 0) ''jd'' (PyStr ''N/A'')))"

section \<open>The worker of the audio processor (services/stt.py)\<close>

text \<open>
  What the worker does to the world outside the record is returned as a list of effects:
  an event sent to the client, a call of \<^verbatim>\<open>on_transcript_callback\<close>, the start of a
  \<^verbatim>\<open>_check_silence\<close> thread, the start of the thread that sends the report after a wait.
\<close>

datatype effect =
  Emit string pydict
| Callback string
| SpawnSilenceCheck
| StartReportThread rat

fun callbacks :: "effect list \<Rightarrow> string list" where
  "callbacks [] = []"
| "callbacks (Callback text # es) = text # callbacks es"
| "callbacks (e # es) = callbacks es"

text \<open>One \<^verbatim>\<open>get\<close> of \<^verbatim>\<open>_audio_generator\<close>: the chunk it yields, the end of the generator, or
  another turn of its loop after the one-second timeout.\<close>

datatype generated = Chunk bytes | Finished | Waiting

definition silent_chunk :: bytes where
  "silent_chunk = replicate 1600 (CHR 0x00)"

definition audio_generator_next :: "processor \<Rightarrow> rat \<Rightarrow> generated \<times> processor" where
  "audio_generator_next p now =
     (if \<not> is_running p then (Finished, p)
      else case audio_queue p of
             [] \<Rightarrow>
               (if 8 < now - last_audio_time p
                then (Chunk silent_chunk, p\<lparr> last_audio_time := now \<rparr>)
                else (Waiting, p))
           | None # rest \<Rightarrow> (Finished, p\<lparr> audio_queue := rest \<rparr>)
           | Some chunk # rest \<Rightarrow> (Chunk chunk, p\<lparr> audio_queue := rest \<rparr>))"

subsection \<open>Recognition responses and the silence check\<close>

record recognition_result =
  alternatives :: "string list"
  is_final :: bool

text \<open>
  The body of the loop of \<^verbatim>\<open>_process_responses\<close> for one response that arrives at time
  \<open>now\<close>, given as its list of results; the loop itself ends at the first response that
  finds the processor not running.
\<close>

definition process_response ::
  "processor \<Rightarrow> rat \<Rightarrow> recognition_result list \<Rightarrow> effect list \<times> processor" where
  "process_response p now results =
     (case results of
        [] \<Rightarrow> ([], p)
      | result # _ \<Rightarrow>
          (case alternatives result of
             [] \<Rightarrow> ([], p)
           | transcript # _ \<Rightarrow>
               (if is_listening p then
                  (if \<not> is_final result
                   then ([Emit ''interim_transcript'' [(''text'', PyStr transcript)]], p)
                   else (if strip transcript \<noteq> [] \<and> 1 < length (strip transcript)
                         then ([Emit ''final_transcript_part'' [(''text'', PyStr (strip transcript))],
                                SpawnSilenceCheck],
                               p\<lparr> current_transcript :=
                                     current_transcript p @ strip transcript @ '' '',
                                   last_final_time := Some now \<rparr>)
                         else ([SpawnSilenceCheck], p)))
                else ([], p))))"

fun process_responses ::
  "processor \<Rightarrow> (rat \<times> recognition_result list) list \<Rightarrow> effect list \<times> processor" where
  "process_responses p [] = ([], p)"
| "process_responses p ((now, results) # rest) =
     (if \<not> is_running p then ([], p)
      else (let (es, p1) = process_response p now results;
                (es', p2) = process_responses p1 rest
            in (es @ es', p2)))"

text \<open>
  \<^verbatim>\<open>_check_silence\<close> runs on a thread of its own, one per final result, and takes no lock.
  After its sleep it first reads: the test of \<^verbatim>\<open>last_final_time\<close> against the time \<open>now\<close>
  (\<^verbatim>\<open>None\<close> and the time 0 are both false), the test of the transcript and of the listening
  flag, and the text it will deliver. Then it writes: it clears the transcript and the
  time and calls the callback the session gave the processor. Another thread can run
  between the two.
\<close>

datatype check_decision = Commit string | Discard | Leave

definition check_silence_test :: "processor \<Rightarrow> rat \<Rightarrow> check_decision" where
  "check_silence_test p now =
     (case last_final_time p of
        None \<Rightarrow> Leave
      | Some t \<Rightarrow>
          (if t \<noteq> 0 \<and> SILENCE_THRESHOLD \<le> now - t then
             (if strip (current_transcript p) \<noteq> [] \<and> is_listening p
              then Commit (strip (current_transcript p))
              else Discard)
           else Leave))"

definition check_silence_commit :: "processor \<Rightarrow> check_decision \<Rightarrow> effect list \<times> processor" where
  "check_silence_commit p decision =
     (case decision of
        Leave \<Rightarrow> ([], p)
      | Discard \<Rightarrow> ([], p\<lparr> current_transcript := [], last_final_time := None \<rparr>)
      | Commit complete_text \<Rightarrow>
          (let p1 = p\<lparr> current_transcript := [], last_final_time := None \<rparr>
           in if 2 < length complete_text \<and> \<not> isspace complete_text
              then ([Callback complete_text], p1)
              else ([], p1)))"

text \<open>The body of a check that no other thread interrupts.\<close>

definition check_silence :: "processor \<Rightarrow> rat \<Rightarrow> effect list \<times> processor" where
  "check_silence p now = check_silence_commit p (check_silence_test p now)"

text \<open>
  A timeline of the segmenter: final fragments as they arrive and silence checks as they
  wake up, each with its time, in the order in which they run.
\<close>

datatype occurrence = FinalFragment rat string | SilenceCheck rat

fun occur :: "processor \<Rightarrow> occurrence \<Rightarrow> effect list \<times> processor" where
  "occur p (FinalFragment now transcript) =
     process_responses p [(now, [\<lparr> alternatives = [transcript], is_final = True \<rparr>])]"
| "occur p (SilenceCheck now) = check_silence p now"

fun run_timeline :: "processor \<Rightarrow> occurrence list \<Rightarrow> effect list \<times> processor" where
  "run_timeline p [] = ([], p)"
| "run_timeline p (x # xs) =
     (let (es, p1) = occur p x; (es', p2) = run_timeline p1 xs in (es @ es', p2))"

text \<open>The occurrences in the order of their times; occurrences at the same time keep the
  order in which they are listed.\<close>

fun occurrence_time :: "occurrence \<Rightarrow> rat" where
  "occurrence_time (FinalFragment now transcript) = now"
| "occurrence_time (SilenceCheck now) = now"

definition in_order_of_time :: "occurrence list \<Rightarrow> occurrence list" where
  "in_order_of_time occurrences = sort_key occurrence_time occurrences"

text \<open>
  A schedule of the threads: a final fragment arrives, check number \<open>k\<close> reads at some
  time, check number \<open>k\<close> writes what it decided when it read. \<open>pending\<close> holds the decisions
  of the checks that have read and not yet written.
\<close>

datatype thread_step = Arrives rat string | Tests nat rat | Commits nat

fun run_threads ::
  "processor \<Rightarrow> (nat \<rightharpoonup> check_decision) \<Rightarrow> thread_step list \<Rightarrow> effect list \<times> processor"
where
  "run_threads p pending [] = ([], p)"
| "run_threads p pending (Arrives now transcript # steps) =
     (let (es, p1) =
            process_responses p [(now, [\<lparr> alternatives = [transcript], is_final = True \<rparr>])];
          (es', p2) = run_threads p1 pending steps
      in (es @ es', p2))"
| "run_threads p pending (Tests k now # steps) =
     run_threads p (pending(k \<mapsto> check_silence_test p now)) steps"
| "run_threads p pending (Commits k # steps) =
     (case pending k of
        None \<Rightarrow> run_threads p pending steps
      | Some decision \<Rightarrow>
          (let (es, p1) = check_silence_commit p decision;
               (es', p2) = run_threads p1 (pending(k := None)) steps
           in (es @ es', p2)))"

subsection \<open>The streaming loop and its restarts\<close>

definition should_restart :: "processor \<Rightarrow> rat \<Rightarrow> bool \<times> processor" where
  "should_restart p current_time =
     (if \<not> is_running p then (False, p)
      else if max_restarts \<le> restart_count p then (False, p)
      else if current_time - last_restart_time p < restart_cooldown then (False, p)
      else (True, p\<lparr> restart_count := restart_count p + 1,
                      last_restart_time := current_time,
                      audio_queue := [] \<rparr>))"

definition max_consecutive_errors :: nat where
  "max_consecutive_errors = 3"

text \<open>
  How one recognition stream of \<^verbatim>\<open>_stream_audio\<close> ends: \<^verbatim>\<open>_process_responses\<close> returns, or it
  raises \<^verbatim>\<open>Cancelled\<close>, \<^verbatim>\<open>Unknown\<close> with or without ``iterating requests'' in its text, one of
  \<^verbatim>\<open>ServiceUnavailable\<close>, \<^verbatim>\<open>DeadlineExceeded\<close>, \<^verbatim>\<open>ConnectionError\<close>, or any other exception.
\<close>

datatype stream_outcome =
  EndedNormally | Cancelled | UnknownIterating | UnknownOther | Recoverable | NonRecoverable

datatype worker_action =
  OpenStream rat
| CountedRestart rat nat
| Sleep rat
| Exit

datatype next_step = Continue | Break

text \<open>
  The handlers and the \<^verbatim>\<open>finally\<close> clause for a stream that ends at time \<open>now\<close>:
  whether the loop goes on, what the worker did, the time at which the handler is left, the
  processor and the count of consecutive errors.
\<close>

definition backoff :: "nat \<Rightarrow> rat" where
  "backoff consecutive_errors = min (1 * of_nat consecutive_errors) 5"

definition handle_outcome ::
  "processor \<Rightarrow> nat \<Rightarrow> stream_outcome \<Rightarrow> rat
     \<Rightarrow> next_step \<times> worker_action list \<times> rat \<times> processor \<times> nat" where
  "handle_outcome p consecutive_errors outcome now =
     (case outcome of
        EndedNormally \<Rightarrow> (Continue, [], now, p\<lparr> active_stream := False \<rparr>, 0)
      | Cancelled \<Rightarrow>
          (if \<not> is_running p
           then (Break, [], now, p\<lparr> active_stream := False \<rparr>, consecutive_errors)
           else (Continue, [], now, p\<lparr> active_stream := False \<rparr>, consecutive_errors))
      | UnknownIterating \<Rightarrow>
          (let errors = consecutive_errors + 1 in
           if max_consecutive_errors \<le> errors
           then (Break, [], now, p\<lparr> active_stream := False \<rparr>, errors)
           else (let (ok, p1) = should_restart (p\<lparr> active_stream := False \<rparr>) now in
                 if ok
                 then (Continue,
                       [CountedRestart now (restart_count p1), Sleep (backoff errors)],
                       now + backoff errors, p1, errors)
                 else (Break, [], now, p1, errors)))
      | UnknownOther \<Rightarrow> (Break, [], now, p\<lparr> active_stream := False \<rparr>, consecutive_errors)
      | Recoverable \<Rightarrow>
          (let errors = consecutive_errors + 1 in
           if max_consecutive_errors \<le> errors
           then (Break, [], now, p\<lparr> active_stream := False \<rparr>, errors)
           else (let (ok, p1) = should_restart (p\<lparr> active_stream := False \<rparr>) now in
                 if ok
                 then (Continue,
                       [CountedRestart now (restart_count p1), Sleep (backoff errors)],
                       now + backoff errors, p1, errors)
                 else (Continue, [], now, p1, errors)))
      | NonRecoverable \<Rightarrow>
          (Break, [], now, p\<lparr> active_stream := False \<rparr>, consecutive_errors))"

text \<open>
  What reaches the worker while it runs: the end of the stream it has open, or a
  \<^verbatim>\<open>stop()\<close> called from the session. \<open>stream_audio\<close> is the worker inside an open stream
  with the events still to come; after an outcome whose handler goes on, the head of the
  \<^verbatim>\<open>while\<close> loop is tested and the next stream opened. With no event left the worker is
  still inside its stream.
\<close>

datatype worker_event = StreamEnds stream_outcome rat | StopCalled

fun stream_audio ::
  "processor \<Rightarrow> nat \<Rightarrow> worker_event list \<Rightarrow> worker_action list \<times> processor" where
  "stream_audio p consecutive_errors [] = ([], p)"
| "stream_audio p consecutive_errors (StopCalled # events) =
     stream_audio (stop p) consecutive_errors events"
| "stream_audio p consecutive_errors (StreamEnds outcome now # events) =
     (case handle_outcome p consecutive_errors outcome now of
        (Break, actions, reopen_at, p1, errors) \<Rightarrow> (actions @ [Exit], p1)
      | (Continue, actions, reopen_at, p1, errors) \<Rightarrow>
          (if is_running p1 \<and> restart_count p1 < max_restarts
           then (let (later, p2) = stream_audio (p1\<lparr> active_stream := True \<rparr>) errors events
                 in (actions @ [OpenStream reopen_at] @ later, p2))
           else (actions @ [Exit], p1)))"

text \<open>The worker thread from its start at time \<open>now\<close>.\<close>

definition run_worker ::
  "processor \<Rightarrow> rat \<Rightarrow> worker_event list \<Rightarrow> worker_action list \<times> processor" where
  "run_worker p now events =
     (if is_running p \<and> restart_count p < max_restarts
      then (let (later, p1) = stream_audio (p\<lparr> active_stream := True \<rparr>) 0 events
            in (OpenStream now # later, p1))
      else ([Exit], p))"

fun restart_times :: "worker_action list \<Rightarrow> rat list" where
  "restart_times [] = []"
| "restart_times (CountedRestart t n # as) = t # restart_times as"
| "restart_times (a # as) = restart_times as"

fun open_times :: "worker_action list \<Rightarrow> rat list" where
  "open_times [] = []"
| "open_times (OpenStream t # as) = t # open_times as"
| "open_times (a # as) = open_times as"

text \<open>\<open>spaced previous ts\<close>: each time of \<open>ts\<close> is at least the cooldown after the one
  before it, the first one after \<open>previous\<close>.\<close>

fun spaced :: "rat \<Rightarrow> rat list \<Rightarrow> bool" where
  "spaced previous [] = True"
| "spaced previous (t # ts) = (restart_cooldown \<le> t - previous \<and> spaced t ts)"

definition exited :: "worker_action list \<Rightarrow> bool" where
  "exited actions = (actions \<noteq> [] \<and> last actions = Exit)"

definition is_transient :: "stream_outcome \<Rightarrow> bool" where
  "is_transient outcome = (outcome = UnknownIterating \<or> outcome = Recoverable)"

section \<open>The dialogue orchestrator (services/flow.py, sockets/events.py)\<close>

text \<open>
  A session is the dictionary \<^verbatim>\<open>sessions[session_id]\<close>: its running flag, its turn history
  and its audio processor (\<^verbatim>\<open>None\<close> before \<^verbatim>\<open>start_interview\<close>). The collaborators outside the
  repository are taken as functions: the regular-expression substitution \<^verbatim>\<open>re.sub\<close> (with
  its \<^verbatim>\<open>IGNORECASE\<close> flag, pattern, replacement and text), the reply of the dialogue backend
  to a history and an answer, \<^verbatim>\<open>json.loads\<close> (\<^verbatim>\<open>None\<close> for \<^verbatim>\<open>JSONDecodeError\<close>), the speech
  synthesis and \<^verbatim>\<open>random.choice\<close>. A parsed reply is a JSON object whose values are
  \<^verbatim>\<open>None\<close>, booleans, integers or text, or it is some other JSON value.
\<close>

record session =
  session_running :: bool
  chat_history :: "pydict list"
  audio_processor :: "processor option"

datatype parsed = JsonObject pydict | JsonOther

record collaborators =
  re_sub :: "bool \<Rightarrow> string \<Rightarrow> string \<Rightarrow> string \<Rightarrow> string"
  get_llm_response :: "pydict list \<Rightarrow> string \<Rightarrow> string"
  json_loads :: "string \<Rightarrow> parsed option"
  synthesize_speech :: "string \<Rightarrow> string"
  random_choice :: "string list \<Rightarrow> string"

definition with_processor :: "(processor \<Rightarrow> processor) \<Rightarrow> session \<Rightarrow> session" where
  "with_processor f s = s\<lparr> audio_processor := map_option f (audio_processor s) \<rparr>"

subsection \<open>Normalising the transcript\<close>

definition backslash :: char where
  "backslash = CHR 0x5C"

definition word_boundary :: string where
  "word_boundary = [backslash, CHR ''b'']"

definition whole_word :: "string \<Rightarrow> string" where
  "whole_word w = word_boundary @ w @ word_boundary"

definition corrections :: "(string \<times> string) list" where
  "corrections =
     [(whole_word ''frustrated'', ''first of all''),
      (whole_word ''bye'' @ ''(?!'' @ [backslash] @ ''s*bye)'', ''by''),
      (whole_word ''safe introduction'', ''self introduction''),
      (whole_word ''epic opportunity'', ''this opportunity''),
      (whole_word ''coming to my place'', ''coming to my background''),
      (whole_word ''worked has'', ''worked as''),
      (whole_word ''worked ass'', ''worked as''),
      (whole_word ''have experience'', ''have experience in''),
      (word_boundary @ ''I am from'' @ [backslash] @ ''s+(?:my|the)'' @ [backslash] @ ''s+'',
       ''I am from ''),
      (whole_word ''react js'', ''React''),
      (whole_word ''node js'', ''Node.js''),
      (whole_word ''mongo db'', ''MongoDB''),
      (whole_word ''post gre sql'', ''PostgreSQL''),
      (whole_word ''my sql'', ''MySQL''),
      (whole_word ''rest api'', ''REST API''),
      (whole_word ''graph ql'', ''GraphQL''),
      (whole_word ''ci cd'', ''CI/CD'')]"

definition clean_transcript :: "collaborators \<Rightarrow> string \<Rightarrow> string" where
  "clean_transcript env text =
     (if text = [] then text
      else (let cleaned =
                  foldl (\<lambda>cleaned (pattern, replacement). re_sub env True pattern replacement cleaned)
                    text corrections
            in strip (re_sub env False ([backslash] @ ''s+'') '' '' cleaned)))"

subsection \<open>The conversational transition\<close>

fun py_str :: "pyval \<Rightarrow> string" where
  "py_str (PyStr s) = s"
| "py_str (PyInt i) = str_int i"
| "py_str (PyBool b) = (if b then ''True'' else ''False'')"
| "py_str PyNone = ''None''"

text \<open>\<^verbatim>\<open>evaluation.lower() if evaluation else ""\<close>: a value that is true and not text has no
  \<^verbatim>\<open>lower\<close>.\<close>

definition evaluation_lower :: "pyval \<Rightarrow> py_error + string" where
  "evaluation_lower evaluation =
     (if truthy evaluation
      then (case evaluation of PyStr s \<Rightarrow> Inr (lower s) | _ \<Rightarrow> Inl AttributeError)
      else Inr [])"

definition create_conversational_feedback ::
  "collaborators \<Rightarrow> pyval \<Rightarrow> pyval \<Rightarrow> py_error + string" where
  "create_conversational_feedback env evaluation next_question =
     (case evaluation_lower evaluation of
        Inl e \<Rightarrow> Inl e
      | Inr lowered \<Rightarrow>
          (let transitions =
                 (if list_ex (\<lambda>word. contains lowered word)
                       [''excellent'', ''great'', ''good'', ''well'', ''correct'', ''strong'',
                        ''impressive'']
                  then [''Excellent. '', ''That's very good. '', ''Well explained. '',
                        ''Good understanding. '', ''Perfect. '']
                  else if list_ex (\<lambda>word. contains lowered word)
                       [''okay'', ''decent'', ''fair'', ''partial'', ''some'', ''adequate'']
                  then [''I see. '', ''Understood. '', ''Alright. '', ''Thank you. '']
                  else if list_ex (\<lambda>word. contains lowered word)
                       [''unclear'', ''incomplete'', ''missing'', ''weak'', ''incorrect'']
                  then [''Let me ask about... '', ''Could you clarify... '',
                        ''I'd like to understand... '', ''Please explain... '']
                  else [''Alright. '', ''Thank you. '', ''I understand. ''])
           in Inr (random_choice env transitions @ py_str next_question)))"

subsection \<open>Ending the interview\<close>

text \<open>
  \<^verbatim>\<open>end_interview_naturally\<close> stops the processor, clears the running flag, sends the closing
  message with \<^verbatim>\<open>is_final\<close> and starts the thread \<^verbatim>\<open>generate_and_send_report\<close>, which is given
  the wait computed from the number of words of the message.
\<close>

definition closing_message :: "nat \<Rightarrow> bool \<Rightarrow> string" where
  "closing_message questions_asked user_initiated =
     (if user_initiated
      then ''Thank you for your time and responses today. We've discussed ''
             @ str_nat questions_asked
             @ '' questions, which provides valuable insight into your capabilities. ''
             @ ''I appreciate your openness in sharing your experience. This concludes our technical interview session.''
      else ''Thank you for this comprehensive discussion. We've thoroughly covered ''
             @ str_nat questions_asked
             @ '' questions across various technical domains, ''
             @ ''and I have a clear understanding of your expertise and approach to problem-solving. This concludes our technical interview session.'')"

definition total_wait_time :: "string \<Rightarrow> rat" where
  "total_wait_time message = (of_nat (length (py_split message)) / 150) * 30 + 3"

definition end_interview_naturally ::
  "collaborators \<Rightarrow> session \<Rightarrow> nat \<Rightarrow> bool \<Rightarrow> effect list \<times> session" where
  "end_interview_naturally env s questions_asked user_initiated =
     (let s1 = (with_processor stop s)\<lparr> session_running := False \<rparr>;
          message = closing_message questions_asked user_initiated;
          audio_base64 = synthesize_speech env message
      in ([Emit ''ai_message''
             [(''text'', PyStr message), (''audio'', PyStr audio_base64),
              (''is_final'', PyBool True)],
           StartReportThread (total_wait_time message)],
          s1))"

text \<open>
  The thread: the report is assembled first; without a report the thread ends; with one
  it sleeps for the wait and then sends \<^verbatim>\<open>interview_complete\<close>.
\<close>

datatype thread_action = AssembleReport | SleepFor rat | EmitComplete report

definition generate_and_send_report :: "report option \<Rightarrow> rat \<Rightarrow> thread_action list" where
  "generate_and_send_report assembled wait =
     AssembleReport #
       (case assembled of None \<Rightarrow> [] | Some r \<Rightarrow> [SleepFor wait, EmitComplete r])"

text \<open>
  The actions of the thread with the times at which each begins and ends, for a thread
  that starts at \<open>clock\<close> and takes \<open>assembly\<close> seconds to assemble the report.
\<close>

fun timed :: "rat \<Rightarrow> rat \<Rightarrow> thread_action list \<Rightarrow> (thread_action \<times> rat \<times> rat) list" where
  "timed clock assembly [] = []"
| "timed clock assembly (AssembleReport # actions) =
     (AssembleReport, clock, clock + assembly) # timed (clock + assembly) assembly actions"
| "timed clock assembly (SleepFor wait # actions) =
     (SleepFor wait, clock, clock + wait) # timed (clock + wait) assembly actions"
| "timed clock assembly (EmitComplete r # actions) =
     (EmitComplete r, clock, clock) # timed clock assembly actions"

text \<open>Two intervals of time run concurrently when they share more than a point.\<close>

definition concurrent :: "rat \<times> rat \<Rightarrow> rat \<times> rat \<Rightarrow> bool" where
  "concurrent a b = (max (fst a) (fst b) < min (snd a) (snd b))"

subsection \<open>A completed utterance\<close>

definition fence :: string where
  "fence = [CHR 0x60, CHR 0x60, CHR 0x60]"

definition strip_fences :: "string \<Rightarrow> string" where
  "strip_fences next_response =
     (let cleaned = strip next_response;
          opened = (if startswith cleaned (fence @ ''json'') then drop 7 cleaned
                    else if startswith cleaned fence then drop 3 cleaned
                    else cleaned);
          closed = (if endswith opened fence then take (length opened - 3) opened else opened)
      in strip closed)"

definition default_reply :: string where
  \<open>default_reply =
     ''{"evaluation": "Let's continue our discussion", "score": 0, "next_question": "Thank you for that response. Let's explore another technical area.", "should_continue": true, "interview_stage": "mid"}''\<close>

definition confirmation_message :: "nat \<Rightarrow> string" where
  "confirmation_message questions_asked =
     ''I understand you'd like to conclude the interview. However, we've only covered ''
       @ str_nat questions_asked @ '' questions. ''
       @ ''To provide a comprehensive assessment, I'd recommend answering at least ''
       @ str_nat (MIN_QUESTIONS - questions_asked) @ '' more question(s). ''
       @ ''Would you like to continue, or shall we conclude with the current assessment?''"

text \<open>
  The inner \<^verbatim>\<open>try\<close> of \<^verbatim>\<open>process_user_transcript\<close> for the reply \<open>next_response\<close>, the candidate's
  answer being in the history already. An exception other than \<^verbatim>\<open>JSONDecodeError\<close> goes to
  the outer handler, which unmutes the processor.
\<close>

definition handle_reply :: "collaborators \<Rightarrow> session \<Rightarrow> string \<Rightarrow> effect list \<times> session" where
  "handle_reply env s next_response =
     (case json_loads env (strip_fences next_response) of
        None \<Rightarrow>
          (let questions_asked = get_question_count (chat_history s);
               s1 = s\<lparr> chat_history := chat_history s @ [[(''interviewer'', PyStr next_response)]] \<rparr>;
               audio_base64 = synthesize_speech env next_response
           in ([Emit ''ai_message''
                  [(''text'', PyStr next_response), (''audio'', PyStr audio_base64),
                   (''question_number'', PyInt (int questions_asked + 1))]],
               s1))
      | Some JsonOther \<Rightarrow> ([], with_processor unmute s)
      | Some (JsonObject response_data) \<Rightarrow>
          (let evaluation = dict_get response_data ''evaluation'' (PyStr []);
               score = dict_get response_data ''score'' (PyInt 0);
               next_question =
                 dict_get response_data ''next_question'' (PyStr ''Let's continue our discussion.'');
               should_continue = dict_get response_data ''should_continue'' (PyBool True);
               interview_stage = dict_get response_data ''interview_stage'' (PyStr ''mid'');
               questions_asked = get_question_count (chat_history s);
               s1 = s\<lparr> chat_history := chat_history s
                        @ [[(''interviewer'', next_question), (''evaluation'', evaluation),
                            (''score'', score)]] \<rparr>
           in if (\<not> truthy should_continue \<or> MAX_QUESTIONS \<le> questions_asked)
                 \<and> MIN_QUESTIONS \<le> questions_asked
              then end_interview_naturally env s1 (questions_asked + 1) False
              else (case create_conversational_feedback env evaluation next_question of
                      Inl e \<Rightarrow> ([], with_processor unmute s1)
                    | Inr conversational_response \<Rightarrow>
                        ([Emit ''ai_message''
                            [(''text'', PyStr conversational_response),
                             (''audio'', PyStr (synthesize_speech env conversational_response)),
                             (''evaluation'', evaluation),
                             (''score'', score),
                             (''question_number'', PyInt (int questions_asked + 1)),
                             (''interview_stage'', interview_stage),
                             (''should_continue'', should_continue)]],
                         s1))))"

definition process_user_transcript ::
  "collaborators \<Rightarrow> session \<Rightarrow> string \<Rightarrow> effect list \<times> session" where
  "process_user_transcript env s raw_text =
     (let user_text = clean_transcript env raw_text in
      if user_text = [] \<or> length user_text < 3 then ([], with_processor unmute s)
      else if check_stop_command user_text then
        (let questions_asked = get_question_count (chat_history s) in
         if MIN_QUESTIONS \<le> questions_asked
         then end_interview_naturally env s questions_asked True
         else (let s1 = with_processor mute s;
                   confirmation_msg = confirmation_message questions_asked;
                   audio_base64 = synthesize_speech env confirmation_msg
               in ([Emit ''ai_message''
                      [(''text'', PyStr confirmation_msg), (''audio'', PyStr audio_base64),
                       (''requires_confirmation'', PyBool True)]],
                   s1)))
      else
        (let s1 = with_processor mute s;
             s2 = s1\<lparr> chat_history := chat_history s1 @ [[(''candidate'', PyStr user_text)]] \<rparr>;
             heard = Emit ''user_transcript'' [(''text'', PyStr user_text)];
             questions_asked = get_question_count (chat_history s2)
         in if MAX_QUESTIONS \<le> questions_asked
            then (let (es, s3) = end_interview_naturally env s2 questions_asked False
                  in (heard # es, s3))
            else (let reply = get_llm_response env (chat_history s2) user_text;
                      next_response = (if reply = [] then default_reply else reply);
                      (es, s3) = handle_reply env s2 next_response
                  in (heard # es, s3))))"

text \<open>\<^verbatim>\<open>ai_speech_ended\<close>: the client has played the last message.\<close>

definition handle_ai_speech_ended :: "session \<Rightarrow> session" where
  "handle_ai_speech_ended s =
     (if session_running s
      then with_processor (\<lambda>p. if \<not> is_running p then start p else unmute p) s
      else s)"

text \<open>The utterances of a session one after the other, the client's \<^verbatim>\<open>ai_speech_ended\<close>
  after each.\<close>

fun converse :: "collaborators \<Rightarrow> session \<Rightarrow> string list \<Rightarrow> effect list \<times> session" where
  "converse env s [] = ([], s)"
| "converse env s (utterance # utterances) =
     (let (es, s1) = process_user_transcript env s utterance;
          (es', s2) = converse env (handle_ai_speech_ended s1) utterances
      in (es @ es', s2))"

text \<open>The payloads of the \<^verbatim>\<open>ai_message\<close> events among the effects.\<close>

fun ai_messages :: "effect list \<Rightarrow> pydict list" where
  "ai_messages [] = []"
| "ai_messages (Emit name payload # es) =
     (if name = ''ai_message'' then payload # ai_messages es else ai_messages es)"
| "ai_messages (e # es) = ai_messages es"

text \<open>
  Collaborators for the examples: no pattern of the corrections matches, the backend
  answers with a sentence that is not JSON, the synthesis returns a fixed text.
\<close>

definition example_collaborators :: collaborators where
  "example_collaborators =
     \<lparr> re_sub = (\<lambda>ignore_case pattern replacement text. text),
       get_llm_response = (\<lambda>history answer. ''Tell me about queues.''),
       json_loads = (\<lambda>text. None),
       synthesize_speech = (\<lambda>text. ''UklGRg==''),
       random_choice = hd \<rparr>"

text \<open>A running session after the opening question.\<close>

definition example_session :: session where
  "example_session =
     \<lparr> session_running = True,
       chat_history =
         [[(''resume'', PyStr ''cv''), (''jd'', PyStr ''dev''), (''question_type'', PyStr ''t'')],
          [(''interviewer'', PyStr ''Q1'')]],
       audio_processor = Some (start (init_processor 50)) \<rparr>"

section \<open>Theorems\<close>

lemma apply_operation_keeps_invariant:
  "listening_implies_running p \<Longrightarrow> (x = Unmute \<longrightarrow> is_running p) \<Longrightarrow>
   listening_implies_running (apply_operation p x)"
  by (cases x) (auto simp: listening_implies_running_def start_def stop_def mute_def unmute_def)

lemma states_after_invariant:
  "listening_implies_running p \<Longrightarrow> unmute_while_running p ops \<Longrightarrow>
   \<forall>q \<in> set (states_after p ops). listening_implies_running q"
proof (induction ops arbitrary: p)
  case Nil
  then show ?case by simp
next
  case (Cons x xs)
  from Cons.prems have step: "listening_implies_running (apply_operation p x)"
    by (simp add: apply_operation_keeps_invariant)
  from Cons.prems have rest: "unmute_while_running (apply_operation p x) xs"
    by simp
  from Cons.IH [OF step rest] step show ?case by simp
qed

lemma init_invariant: "listening_implies_running (init_processor now)"
  by (simp add: listening_implies_running_def init_processor_def)

text \<open>
  C3 (as the claim states it, refuted). A fresh processor is neither running nor
  listening; \<^verbatim>\<open>unmute()\<close> sets the listening flag without looking at the running
  flag, so after the one-operation sequence \<^verbatim>\<open>unmute()\<close> the processor listens and does
  not run.
\<close>

theorem C3_unmute_breaks_invariant:
  "is_listening (last (states_after (init_processor 0) [Unmute])) \<and>
   \<not> is_running (last (states_after (init_processor 0) [Unmute]))"
  by (simp add: init_processor_def unmute_def)

text \<open>
  C3 (amended). For every sequence of \<^verbatim>\<open>start()\<close>, \<^verbatim>\<open>stop()\<close>, \<^verbatim>\<open>mute()\<close>, \<^verbatim>\<open>unmute()\<close> on a
  new processor in which each \<^verbatim>\<open>unmute()\<close> is called while the processor is running,
  listening implies running after each operation.
\<close>

theorem C3_invariant_when_unmute_guarded:
  "unmute_while_running (init_processor now) ops \<Longrightarrow>
   \<forall>q \<in> set (states_after (init_processor now) ops). is_listening q \<longrightarrow> is_running q"
  using states_after_invariant [OF init_invariant, of now ops]
  by (simp add: listening_implies_running_def)

theorem C3_invariant_witness:
  "unmute_while_running (init_processor 0) [Start, Mute, Unmute, Stop, Mute, Start] \<and>
   list_all (\<lambda>q. is_listening q \<longrightarrow> is_running q)
     (states_after (init_processor 0) [Start, Mute, Unmute, Stop, Mute, Start]) \<and>
   map is_listening (states_after (init_processor 0) [Start, Mute, Unmute, Stop, Mute, Start])
     = [True, False, True, False, False, True]"
proof -
  have g: "unmute_while_running (init_processor 0) [Start, Mute, Unmute, Stop, Mute, Start]"
    by (simp add: init_processor_def start_def stop_def mute_def unmute_def)
  have l: "map is_listening (states_after (init_processor 0) [Start, Mute, Unmute, Stop, Mute, Start])
     = [True, False, True, False, False, True]"
    by (simp add: init_processor_def start_def stop_def mute_def unmute_def)
  from g l C3_invariant_when_unmute_guarded [OF g] show ?thesis
    unfolding list_all_iff by blast
qed

subsection \<open>The audio queue of a stopped processor\<close>

lemma tl_subset: "set (tl xs) \<subseteq> set xs"
  by (cases xs) auto

lemma apply_call_idle_queue:
  "idle_queue_has_no_audio p \<Longrightarrow> idle_queue_has_no_audio (apply_call p x)"
  using tl_subset [of "audio_queue p"]
  by (cases x) (auto simp: idle_queue_has_no_audio_def start_def stop_def mute_def unmute_def
      add_audio_def Let_def queue_get_def)

lemma run_calls_idle_queue:
  "idle_queue_has_no_audio p \<Longrightarrow> idle_queue_has_no_audio (run_calls p xs)"
  by (induction xs arbitrary: p) (simp_all add: apply_call_idle_queue)

lemma run_calls_append: "run_calls p (xs @ ys) = run_calls (run_calls p xs) ys"
  by (induction xs arbitrary: p) simp_all

lemma apply_call_stays_stopped:
  "\<not> is_running p \<Longrightarrow> x \<noteq> CallStart \<Longrightarrow> \<not> is_running (apply_call p x)"
  by (cases x) (simp_all add: stop_def mute_def unmute_def add_audio_def queue_get_def)

lemma run_calls_stays_stopped:
  "\<not> is_running p \<Longrightarrow> CallStart \<notin> set xs \<Longrightarrow> \<not> is_running (run_calls p xs)"
proof (induction xs arbitrary: p)
  case Nil
  then show ?case by simp
next
  case (Cons x xs)
  from Cons.prems have "x \<noteq> CallStart" and rest: "CallStart \<notin> set xs"
    by auto
  with Cons.prems have "\<not> is_running (apply_call p x)"
    by (simp add: apply_call_stays_stopped)
  from Cons.IH [OF this rest] show ?case by simp
qed

lemma stop_not_running: "\<not> is_running (stop p)"
  by (simp add: stop_def)

text \<open>
  C7 (as the claim states it, refuted). \<^verbatim>\<open>stop()\<close> on a running processor drains the
  queue and then puts the shutdown sentinel \<^verbatim>\<open>None\<close> into it; the \<^verbatim>\<open>add_audio\<close> that
  follows adds nothing, and the queue it leaves is not empty: it holds the sentinel.
\<close>

theorem C7_queue_not_empty_after_stop:
  "audio_queue (add_audio (stop (start (init_processor 0))) 1 ''abc'') = [None] \<and>
   audio_queue (add_audio (stop (start (init_processor 0))) 1 ''abc'') \<noteq> []"
  by (simp add: init_processor_def start_def stop_def add_audio_def)

text \<open>
  C7 (amended). After any history of calls, a \<^verbatim>\<open>stop()\<close> and then any calls that are not
  \<^verbatim>\<open>start()\<close> (further \<^verbatim>\<open>stop\<close>, \<^verbatim>\<open>mute\<close>, \<^verbatim>\<open>unmute\<close>, \<^verbatim>\<open>add_audio\<close>, the worker's \<^verbatim>\<open>get\<close>),
  \<^verbatim>\<open>add_audio\<close> changes nothing for every byte sequence, the processor is not running,
  and the queue holds no audio bytes: every item left in it is the sentinel \<^verbatim>\<open>None\<close>.
\<close>

theorem C7_add_audio_noop:
  "CallStart \<notin> set between \<Longrightarrow>
   q = run_calls (init_processor t0) (before @ [CallStop] @ between) \<Longrightarrow>
   add_audio q now audio_bytes = q \<and> \<not> is_running q \<and> set (audio_queue q) \<subseteq> {None}"
proof -
  assume ns: "CallStart \<notin> set between"
    and q: "q = run_calls (init_processor t0) (before @ [CallStop] @ between)"
  let ?p = "run_calls (init_processor t0) before"
  have q': "q = run_calls (stop ?p) between"
    by (simp add: q run_calls_append)
  have nr: "\<not> is_running q"
    unfolding q' by (rule run_calls_stays_stopped [OF stop_not_running ns])
  have "idle_queue_has_no_audio (init_processor t0)"
    by (simp add: idle_queue_has_no_audio_def init_processor_def)
  then have "idle_queue_has_no_audio q"
    unfolding q by (rule run_calls_idle_queue)
  with nr have "set (audio_queue q) \<subseteq> {None}"
    by (simp add: idle_queue_has_no_audio_def)
  with nr show ?thesis by (simp add: add_audio_def)
qed

theorem C7_add_audio_noop_witness:
  "CallStart \<notin> set [CallMute, CallAddAudio 7 ''xy''] \<and>
   add_audio (run_calls (init_processor 0)
       ([CallStart, CallAddAudio 1 ''ab''] @ [CallStop] @ [CallMute, CallAddAudio 7 ''xy''])) 9 ''abc''
     = run_calls (init_processor 0)
       ([CallStart, CallAddAudio 1 ''ab''] @ [CallStop] @ [CallMute, CallAddAudio 7 ''xy'']) \<and>
   audio_queue (run_calls (init_processor 0)
       ([CallStart, CallAddAudio 1 ''ab''] @ [CallStop] @ [CallMute, CallAddAudio 7 ''xy''])) = [None]"
proof -
  have ns: "CallStart \<notin> set [CallMute, CallAddAudio 7 ''xy'']" by simp
  have "audio_queue (run_calls (init_processor 0)
       ([CallStart, CallAddAudio 1 ''ab''] @ [CallStop] @ [CallMute, CallAddAudio 7 ''xy''])) = [None]"
    by (simp add: init_processor_def start_def stop_def mute_def add_audio_def queue_maxsize_def)
  with ns C7_add_audio_noop [OF ns refl, of 0 "[CallStart, CallAddAudio 1 ''ab'']" 9 "''abc''"]
  show ?thesis by blast
qed

subsection \<open>Stop intent\<close>

lemma startswith_iff: "startswith s p \<longleftrightarrow> (\<exists>post. s = p @ post)"
  by (induction s p rule: startswith.induct) auto

lemma contains_iff: "contains s sub \<longleftrightarrow> (\<exists>pre post. s = pre @ sub @ post)"
proof (induction s)
  case Nil
  then show ?case by auto
next
  case (Cons c s)
  show ?case
  proof
    assume "contains (c # s) sub"
    then consider "startswith (c # s) sub" | "contains s sub" by auto
    then show "\<exists>pre post. c # s = pre @ sub @ post"
    proof cases
      case 1
      then obtain post where "c # s = sub @ post" by (auto simp: startswith_iff)
      then have "c # s = [] @ sub @ post" by simp
      then show ?thesis by blast
    next
      case 2
      with Cons.IH obtain pre post where "s = pre @ sub @ post" by auto
      then have "c # s = (c # pre) @ sub @ post" by simp
      then show ?thesis by blast
    qed
  next
    assume "\<exists>pre post. c # s = pre @ sub @ post"
    then obtain pre post where e: "c # s = pre @ sub @ post" by blast
    show "contains (c # s) sub"
    proof (cases pre)
      case Nil
      with e have "startswith (c # s) sub" by (auto simp: startswith_iff)
      then show ?thesis by simp
    next
      case (Cons a pre')
      with e have "s = pre' @ sub @ post" by simp
      with Cons.IH have "contains s sub" by blast
      then show ?thesis by simp
    qed
  qed
qed

lemma lower_char_idem: "lower_char (lower_char c) = lower_char c"
  unfolding lower_char_def by (auto split: option.splits if_splits)

lemma lower_idem: "lower (lower s) = lower s"
  by (simp add: lower_def lower_char_idem)

text \<open>
  C9. \<^verbatim>\<open>check_stop_command\<close> is true exactly when the lowercased transcript has one of the
  nine stop phrases as a contiguous part, whatever stands before and after it; it gives
  the same answer on the transcript and on its lowercased form; and it is true of
  ``we should not stop the interview''.
\<close>

theorem C9_stop_intent_is_substring_containment:
  "(check_stop_command text \<longleftrightarrow>
      (\<exists>phrase \<in> set stop_phrases. \<exists>before after. lower text = before @ phrase @ after)) \<and>
   check_stop_command (lower text) = check_stop_command text \<and>
   length stop_phrases = 9 \<and>
   check_stop_command ''we should not stop the interview'' \<and>
   check_stop_command ''We Should NOT Stop The Interview''"
proof -
  have "check_stop_command text \<longleftrightarrow>
      (\<exists>phrase \<in> set stop_phrases. \<exists>before after. lower text = before @ phrase @ after)"
    by (simp add: check_stop_command_def list_ex_iff contains_iff)
  moreover have "check_stop_command (lower text) = check_stop_command text"
    by (simp add: check_stop_command_def lower_idem)
  moreover have "length stop_phrases = 9"
    by (simp add: stop_phrases_def)
  moreover have "check_stop_command ''we should not stop the interview''"
    by code_simp
  moreover have "check_stop_command ''We Should NOT Stop The Interview''"
    by code_simp
  ultimately show ?thesis by blast
qed

subsection \<open>Report pairing\<close>

lemma greater_than_zero_number:
  "is_number v \<Longrightarrow> \<exists>b. greater_than_zero v = Inr b"
  by (cases v) (simp_all add: is_number_def)

lemma qa_loop_step_paired:
  assumes "i < length h" "is_paired h i" "greater_than_zero (later_score h i) = Inr b"
  shows "qa_loop h i acc sc =
         qa_loop h (i + 1) (acc @ [pair_at h i]) (if b then sc @ [later_score h i] else sc)"
  using assms
  by (subst qa_loop.simps)
     (simp add: is_paired_def pair_at_def later_score_def later_evaluation_def
        has_later_turn_def Let_def)

lemma qa_loop_step_unpaired:
  assumes "i < length h" "\<not> is_paired h i"
  shows "qa_loop h i acc sc = qa_loop h (i + 1) acc sc"
  using assms
  by (subst qa_loop.simps) (auto simp add: is_paired_def)

lemma qa_loop_done:
  assumes "\<not> i < length h"
  shows "qa_loop h i acc sc = Inr (acc, sc)"
  using assms by (subst qa_loop.simps) simp

lemma qa_loop_pairs:
  "list_all (\<lambda>j. is_number (later_score h j)) (filter (is_paired h) [i..<length h]) \<Longrightarrow>
   \<exists>sc'. qa_loop h i acc sc
     = Inr (acc @ map (pair_at h) (filter (is_paired h) [i..<length h]), sc')"
proof (induction "length h - i" arbitrary: i acc sc)
  case 0
  then have "\<not> i < length h" by simp
  then show ?case by (simp add: qa_loop_done)
next
  case (Suc n)
  then have lt: "i < length h" by simp
  then have upt: "[i..<length h] = i # [Suc i..<length h]"
    by (rule upt_conv_Cons)
  from Suc.hyps have n: "n = length h - Suc i" by simp
  show ?case
  proof (cases "is_paired h i")
    case True
    then have fl: "filter (is_paired h) [i..<length h] = i # filter (is_paired h) [Suc i..<length h]"
      by (subst upt) simp
    from Suc.prems have num: "is_number (later_score h i)"
      and rest: "list_all (\<lambda>j. is_number (later_score h j)) (filter (is_paired h) [Suc i..<length h])"
      unfolding fl by simp_all
    from greater_than_zero_number [OF num] obtain b
      where b: "greater_than_zero (later_score h i) = Inr b" by blast
    from Suc.hyps(1) [OF n rest, of "acc @ [pair_at h i]" "if b then sc @ [later_score h i] else sc"]
    obtain sc' where "qa_loop h (Suc i) (acc @ [pair_at h i]) (if b then sc @ [later_score h i] else sc)
      = Inr ((acc @ [pair_at h i]) @ map (pair_at h) (filter (is_paired h) [Suc i..<length h]), sc')"
      by blast
    then have "qa_loop h i acc sc
      = Inr (acc @ map (pair_at h) (filter (is_paired h) [i..<length h]), sc')"
      unfolding fl using qa_loop_step_paired [OF lt True b, of acc sc] by simp
    then show ?thesis by blast
  next
    case False
    then have fl: "filter (is_paired h) [i..<length h] = filter (is_paired h) [Suc i..<length h]"
      by (subst upt) simp
    from Suc.prems have
      rest: "list_all (\<lambda>j. is_number (later_score h j)) (filter (is_paired h) [Suc i..<length h])"
      unfolding fl by simp
    from Suc.hyps(1) [OF n rest, of acc sc]
    obtain sc' where "qa_loop h (Suc i) acc sc
      = Inr (acc @ map (pair_at h) (filter (is_paired h) [Suc i..<length h]), sc')"
      by blast
    then have "qa_loop h i acc sc
      = Inr (acc @ map (pair_at h) (filter (is_paired h) [i..<length h]), sc')"
      unfolding fl using qa_loop_step_unpaired [OF lt False, of acc sc] by simp
    then show ?thesis by blast
  qed
qed

lemma dynamic_report_pairs:
  assumes "2 \<le> length h" "metadata_is_text h"
    and "list_all (\<lambda>i. is_number (later_score h i)) (paired_indices h)"
  shows "generate_dynamic_report False h
    = Some \<lparr> total_questions = length (paired_indices h),
             detailed_qa = map (pair_at h) (paired_indices h) \<rparr>"
proof -
  from assms(3) have
    "list_all (\<lambda>j. is_number (later_score h j)) (filter (is_paired h) [1..<length h])"
    by (simp add: paired_indices_def)
  from qa_loop_pairs [OF this, of "[]" "[]"] obtain scores
    where loop: "qa_loop h 1 [] [] = Inr (map (pair_at h) (paired_indices h), scores)"
    by (auto simp: paired_indices_def)
  from assms(1) have len: "\<not> length h < 2" by simp
  from assms(2) have texts:
    "is_text (dict_get (h ! 0) ''resume'' (PyStr ''N/A''))"
    "is_text (dict_get (h ! 0) ''jd'' (PyStr ''N/A''))"
    by (simp_all add: metadata_is_text_def)
  from loop have loop': "qa_loop h (Suc 0) [] [] = Inr (map (pair_at h) (paired_indices h), scores)"
    by simp
  show ?thesis
    unfolding generate_dynamic_report_def Let_def
    by (simp add: len loop' texts generate_minimal_report_def)
qed

text \<open>
  When an exception leaves the request for the analysis, the report of the same history
  comes from \<^verbatim>\<open>generate_fallback_report\<close>: its pairs carry the score of the question's own
  entry and no evaluation.
\<close>

lemma fallback_report_reads_own_entry:
  "generate_dynamic_report True example_history
     = Some \<lparr> total_questions = 2,
              detailed_qa =
                [[(''question'', PyStr ''Q1''), (''answer'', PyStr ''A1''), (''score'', PyInt 9)],
                 [(''question'', PyStr ''Q2''), (''answer'', PyStr ''A2''), (''score'', PyInt 6)]] \<rparr>"
  by code_simp

text \<open>
  C6 (as the claim states it, refuted). In the history \<open>[metadata, Q1, A1, Q2, A2]\<close> below,
  Q2 carries the score 7 and the empty evaluation, and no exception is raised. The pair
  for Q1 gets Q2's score, 7, not its own 9; its evaluation is not the one found on Q2 (the
  empty text) but the fixed text ``Response received and being evaluated''.
\<close>

theorem C6_empty_evaluation_is_replaced:
  "generate_dynamic_report False
     [[(''resume'', PyStr ''cv''), (''jd'', PyStr ''dev''), (''question_type'', PyStr ''technical'')],
      [(''interviewer'', PyStr ''Q1''), (''evaluation'', PyStr ''good''), (''score'', PyInt 9)],
      [(''candidate'', PyStr ''A1'')],
      [(''interviewer'', PyStr ''Q2''), (''evaluation'', PyStr []), (''score'', PyInt 7)],
      [(''candidate'', PyStr ''A2'')]]
   = Some \<lparr> total_questions = 2,
            detailed_qa =
              [[(''question'', PyStr ''Q1''), (''answer'', PyStr ''A1''), (''score'', PyInt 7),
                (''evaluation'', PyStr ''Response received and being evaluated'')],
               [(''question'', PyStr ''Q2''), (''answer'', PyStr ''A2''), (''score'', PyInt 0),
                (''evaluation'', PyStr ''Response received and being evaluated'')]] \<rparr>"
  by (simp add: generate_dynamic_report_def generate_minimal_report_def qa_loop.simps
      has_key_def dict_get_def no_evaluation_def Let_def)

text \<open>
  C6 (amended). For every turn history of at least two entries whose resume and job
  description are text and whose scores are numbers, when no exception leaves the request
  for the analysis, \<^verbatim>\<open>generate_dynamic_report\<close> returns a report whose pairs are, in order,
  one for each index \<open>i \<ge> 1\<close> where entry \<open>i\<close> is an interviewer turn other than the metadata
  and entry \<open>i + 1\<close> a candidate turn: the question of entry \<open>i\<close>, the answer of entry
  \<open>i + 1\<close>, the score of the interviewer turn at \<open>i + 2\<close> (0 when there is none, or it has no
  score), and that turn's evaluation when it is not empty, else the fixed text; nothing is
  read from the question's own entry. For \<open>[metadata, Q1, A1, Q2, A2]\<close> with a non-empty
  evaluation on Q2, the pair for Q1 carries the score and evaluation of Q2.
\<close>

theorem C6_report_pairing:
  "(2 \<le> length h \<and> metadata_is_text h
      \<and> list_all (\<lambda>i. is_number (later_score h i)) (paired_indices h) \<longrightarrow>
      generate_dynamic_report False h
        = Some \<lparr> total_questions = length (paired_indices h),
                 detailed_qa = map (pair_at h) (paired_indices h) \<rparr>) \<and>
   (e2 \<noteq> [] \<longrightarrow>
      generate_dynamic_report False
        [[(''resume'', PyStr r), (''jd'', PyStr j), (''question_type'', t)],
         [(''interviewer'', q1), (''evaluation'', e1), (''score'', s1)],
         [(''candidate'', a1)],
         [(''interviewer'', q2), (''evaluation'', PyStr e2), (''score'', PyInt s2)],
         [(''candidate'', a2)]]
      = Some \<lparr> total_questions = 2,
               detailed_qa =
                 [[(''question'', q1), (''answer'', a1), (''score'', PyInt s2),
                   (''evaluation'', PyStr e2)],
                  [(''question'', q2), (''answer'', a2), (''score'', PyInt 0),
                   (''evaluation'', PyStr no_evaluation)]] \<rparr>)"
proof (intro conjI impI)
  assume "2 \<le> length h \<and> metadata_is_text h
      \<and> list_all (\<lambda>i. is_number (later_score h i)) (paired_indices h)"
  then show "generate_dynamic_report False h
        = Some \<lparr> total_questions = length (paired_indices h),
                 detailed_qa = map (pair_at h) (paired_indices h) \<rparr>"
    by (intro dynamic_report_pairs) simp_all
next
  assume "e2 \<noteq> []"
  then show "generate_dynamic_report False
        [[(''resume'', PyStr r), (''jd'', PyStr j), (''question_type'', t)],
         [(''interviewer'', q1), (''evaluation'', e1), (''score'', s1)],
         [(''candidate'', a1)],
         [(''interviewer'', q2), (''evaluation'', PyStr e2), (''score'', PyInt s2)],
         [(''candidate'', a2)]]
      = Some \<lparr> total_questions = 2,
               detailed_qa =
                 [[(''question'', q1), (''answer'', a1), (''score'', PyInt s2),
                   (''evaluation'', PyStr e2)],
                  [(''question'', q2), (''answer'', a2), (''score'', PyInt 0),
                   (''evaluation'', PyStr no_evaluation)]] \<rparr>"
    by (simp add: generate_dynamic_report_def generate_minimal_report_def qa_loop.simps
        has_key_def dict_get_def Let_def)
qed

theorem C6_report_pairing_witness:
  "2 \<le> length example_history \<and> metadata_is_text example_history \<and>
   list_all (\<lambda>i. is_number (later_score example_history i)) (paired_indices example_history) \<and>
   paired_indices example_history = [1, 3] \<and>
   generate_dynamic_report False example_history
     = Some \<lparr> total_questions = 2,
              detailed_qa =
                [[(''question'', PyStr ''Q1''), (''answer'', PyStr ''A1''),
                  (''score'', PyInt 6), (''evaluation'', PyStr ''fair'')],
                 [(''question'', PyStr ''Q2''), (''answer'', PyStr ''A2''),
                  (''score'', PyInt 0),
                  (''evaluation'', PyStr ''Response received and being evaluated'')]] \<rparr> \<and>
   ''fair'' \<noteq> [] \<and>
   generate_dynamic_report False
     [[(''resume'', PyStr ''cv''), (''jd'', PyStr ''dev''), (''question_type'', PyStr ''t'')],
      [(''interviewer'', PyStr ''Q1''), (''evaluation'', PyStr ''e1''), (''score'', PyInt 9)],
      [(''candidate'', PyStr ''A1'')],
      [(''interviewer'', PyStr ''Q2''), (''evaluation'', PyStr ''fair''), (''score'', PyInt 6)],
      [(''candidate'', PyStr ''A2'')]]
   = Some \<lparr> total_questions = 2,
            detailed_qa =
              [[(''question'', PyStr ''Q1''), (''answer'', PyStr ''A1''), (''score'', PyInt 6),
                (''evaluation'', PyStr ''fair'')],
               [(''question'', PyStr ''Q2''), (''answer'', PyStr ''A2''), (''score'', PyInt 0),
                (''evaluation'', PyStr ''Response received and being evaluated'')]] \<rparr>"
proof -
  have len: "2 \<le> length example_history"
    by (simp add: example_history_def)
  have meta: "metadata_is_text example_history"
    by (simp add: metadata_is_text_def example_history_def dict_get_def)
  have idx: "paired_indices example_history = [1, 3]"
    by code_simp
  have num: "list_all (\<lambda>i. is_number (later_score example_history i))
      (paired_indices example_history)"
    by code_simp
  have pairs: "map (pair_at example_history) (paired_indices example_history)
      = [[(''question'', PyStr ''Q1''), (''answer'', PyStr ''A1''),
          (''score'', PyInt 6), (''evaluation'', PyStr ''fair'')],
         [(''question'', PyStr ''Q2''), (''answer'', PyStr ''A2''),
          (''score'', PyInt 0),
          (''evaluation'', PyStr ''Response received and being evaluated'')]]"
    by code_simp
  note inst = C6_report_pairing [of example_history "''fair''" "''cv''" "''dev''"
      "PyStr ''t''" "PyStr ''Q1''" "PyStr ''e1''" "PyInt 9" "PyStr ''A1''" "PyStr ''Q2''" 6
      "PyStr ''A2''"]
  from inst len meta num have "generate_dynamic_report False example_history
      = Some \<lparr> total_questions = length (paired_indices example_history),
               detailed_qa = map (pair_at example_history) (paired_indices example_history) \<rparr>"
    by blast
  then have first: "generate_dynamic_report False example_history
     = Some \<lparr> total_questions = 2,
              detailed_qa =
                [[(''question'', PyStr ''Q1''), (''answer'', PyStr ''A1''),
                  (''score'', PyInt 6), (''evaluation'', PyStr ''fair'')],
                 [(''question'', PyStr ''Q2''), (''answer'', PyStr ''A2''),
                  (''score'', PyInt 0),
                  (''evaluation'', PyStr ''Response received and being evaluated'')]] \<rparr>"
    unfolding pairs by (simp add: idx)
  from inst have second: "generate_dynamic_report False
     [[(''resume'', PyStr ''cv''), (''jd'', PyStr ''dev''), (''question_type'', PyStr ''t'')],
      [(''interviewer'', PyStr ''Q1''), (''evaluation'', PyStr ''e1''), (''score'', PyInt 9)],
      [(''candidate'', PyStr ''A1'')],
      [(''interviewer'', PyStr ''Q2''), (''evaluation'', PyStr ''fair''), (''score'', PyInt 6)],
      [(''candidate'', PyStr ''A2'')]]
   = Some \<lparr> total_questions = 2,
            detailed_qa =
              [[(''question'', PyStr ''Q1''), (''answer'', PyStr ''A1''), (''score'', PyInt 6),
                (''evaluation'', PyStr ''fair'')],
               [(''question'', PyStr ''Q2''), (''answer'', PyStr ''A2''), (''score'', PyInt 0),
                (''evaluation'', PyStr ''Response received and being evaluated'')]] \<rparr>"
    by (simp add: no_evaluation_def)
  from len meta num idx first second show ?thesis by simp
qed

subsection \<open>The rule-based analysis\<close>

lemma pad_strengths_eq:
  "pad_strengths xs = xs @ replicate (3 - length xs) strengths_filler"
proof (induction xs rule: pad_strengths.induct)
  case (1 strengths)
  show ?case
  proof (cases "length strengths < 3")
    case True
    then have "3 - length strengths = Suc (3 - length (strengths @ [strengths_filler]))"
      by simp
    with 1 [OF True] True show ?thesis
      by (subst pad_strengths.simps) (simp add: replicate_app_Cons_same)
  next
    case False
    then show ?thesis by (subst pad_strengths.simps) simp
  qed
qed

lemma pad_improvements_eq:
  "pad_improvements xs = xs @ replicate (3 - length xs) improvements_filler"
proof (induction xs rule: pad_improvements.induct)
  case (1 improvements)
  show ?case
  proof (cases "length improvements < 3")
    case True
    then have "3 - length improvements = Suc (3 - length (improvements @ [improvements_filler]))"
      by simp
    with 1 [OF True] True show ?thesis
      by (subst pad_improvements.simps) (simp add: replicate_app_Cons_same)
  next
    case False
    then show ?thesis by (subst pad_improvements.simps) simp
  qed
qed

lemma answers_of_total:
  "list_all has_text_answer qa_pairs \<Longrightarrow> \<exists>answers. answers_of qa_pairs = Inr answers"
proof (induction qa_pairs)
  case Nil
  then show ?case by simp
next
  case (Cons qa qas)
  then obtain ss where "answers_of qas = Inr ss" by auto
  moreover from Cons.prems obtain s where "map_of qa ''answer'' = Some (PyStr s)"
    by (auto simp: has_text_answer_def split: option.splits pyval.splits)
  ultimately show ?case by (simp add: dict_item_def)
qed

lemma analysis_lists:
  "generate_fallback_analysis avg_score qa_count qa_pairs = Inr a \<Longrightarrow>
   \<exists>short_answers unclear_answers.
     key_strengths a =
       take 3 (fst (collect_points avg_score qa_count short_answers unclear_answers)
               @ replicate
                   (3 - length (fst (collect_points avg_score qa_count short_answers unclear_answers)))
                   strengths_filler) \<and>
     areas_for_improvement a =
       take 3 (snd (collect_points avg_score qa_count short_answers unclear_answers)
               @ replicate
                   (3 - length (snd (collect_points avg_score qa_count short_answers unclear_answers)))
                   improvements_filler)"
proof -
  assume r: "generate_fallback_analysis avg_score qa_count qa_pairs = Inr a"
  then obtain answers where an: "answers_of qa_pairs = Inr answers"
    unfolding generate_fallback_analysis_def by (auto split: sum.splits)
  let ?short = "length (filter (\<lambda>a. length (py_split a) < 15) answers)"
  let ?unclear = "length (filter (\<lambda>a. list_ex (\<lambda>word. contains (lower a) word) uncertain_phrases)
                   answers)"
  obtain s i where cp: "collect_points avg_score qa_count ?short ?unclear = (s, i)"
    by (cases "collect_points avg_score qa_count ?short ?unclear") blast
  from r an cp have "key_strengths a = take 3 (pad_strengths s)"
    and "areas_for_improvement a = take 3 (pad_improvements i)"
    unfolding generate_fallback_analysis_def Let_def by auto
  with cp have "key_strengths a =
       take 3 (fst (collect_points avg_score qa_count ?short ?unclear)
               @ replicate
                   (3 - length (fst (collect_points avg_score qa_count ?short ?unclear)))
                   strengths_filler) \<and>
     areas_for_improvement a =
       take 3 (snd (collect_points avg_score qa_count ?short ?unclear)
               @ replicate
                   (3 - length (snd (collect_points avg_score qa_count ?short ?unclear)))
                   improvements_filler)"
    by (simp only: pad_strengths_eq pad_improvements_eq fst_conv snd_conv)
  then show ?thesis by blast
qed

lemma analysis_lengths:
  "generate_fallback_analysis avg_score qa_count qa_pairs = Inr a \<Longrightarrow>
   length (key_strengths a) = 3 \<and> length (areas_for_improvement a) = 3"
  unfolding generate_fallback_analysis_def Let_def
  by (auto split: sum.splits prod.splits simp: pad_strengths_eq pad_improvements_eq)

lemma analysis_total:
  "list_all has_text_answer qa_pairs \<Longrightarrow>
   \<exists>a. generate_fallback_analysis avg_score qa_count qa_pairs = Inr a"
proof -
  assume "list_all has_text_answer qa_pairs"
  from answers_of_total [OF this] obtain answers where "answers_of qa_pairs = Inr answers"
    by blast
  then show ?thesis
    unfolding generate_fallback_analysis_def Let_def
    by (simp split: prod.splits)
qed

text \<open>
  C10. For every average score, question count and list of Q and A pairs whose answers
  are text, the rule-based analysis returns a result, and in every result it returns
  \<^verbatim>\<open>key_strengths\<close> and \<^verbatim>\<open>areas_for_improvement\<close> have exactly three elements: each is the
  first three of the collected points followed by as many copies of its fixed filler
  string as three elements need.
\<close>

theorem C10_fallback_lists_have_three_elements:
  "(list_all has_text_answer qa_pairs \<longrightarrow>
      (\<exists>a. generate_fallback_analysis avg_score qa_count qa_pairs = Inr a)) \<and>
   (generate_fallback_analysis avg_score qa_count qa_pairs = Inr a \<longrightarrow>
      length (key_strengths a) = 3 \<and> length (areas_for_improvement a) = 3 \<and>
      (\<exists>short_answers unclear_answers.
         key_strengths a =
           take 3 (fst (collect_points avg_score qa_count short_answers unclear_answers)
             @ replicate
                 (3 - length (fst (collect_points avg_score qa_count short_answers unclear_answers)))
                 strengths_filler) \<and>
         areas_for_improvement a =
           take 3 (snd (collect_points avg_score qa_count short_answers unclear_answers)
             @ replicate
                 (3 - length (snd (collect_points avg_score qa_count short_answers unclear_answers)))
                 improvements_filler)))"
  using analysis_total [of qa_pairs avg_score qa_count]
    analysis_lengths [of avg_score qa_count qa_pairs a]
    analysis_lists [of avg_score qa_count qa_pairs a]
  by blast

theorem C10_fallback_lists_witness:
  "list_all has_text_answer
     [[(''question'', PyStr ''Q1''), (''answer'', PyStr ''I think it is fine'')],
      [(''question'', PyStr ''Q2''), (''answer'', PyStr ''We used queues'')]] \<and>
   (\<exists>a. generate_fallback_analysis (13 / 2) 2
           [[(''question'', PyStr ''Q1''), (''answer'', PyStr ''I think it is fine'')],
            [(''question'', PyStr ''Q2''), (''answer'', PyStr ''We used queues'')]] = Inr a \<and>
        length (key_strengths a) = 3 \<and> length (areas_for_improvement a) = 3 \<and>
        key_strengths a =
          [''Maintained professional demeanor throughout interview'',
           ''Maintained professional demeanor throughout interview'',
           ''Maintained professional demeanor throughout interview''] \<and>
        areas_for_improvement a =
          [''Interview concluded early with only 2 questions covered'',
           ''Showed uncertainty in 1 responses, indicating knowledge gaps'',
           ''Many responses were brief (2/2), lacking technical depth''])"
proof -
  let ?qa = "[[(''question'', PyStr ''Q1''), (''answer'', PyStr ''I think it is fine'')],
      [(''question'', PyStr ''Q2''), (''answer'', PyStr ''We used queues'')]]"
  have texts: "list_all has_text_answer ?qa"
    by (simp add: has_text_answer_def)
  have ks: "map_sum id key_strengths (generate_fallback_analysis (13 / 2) 2 ?qa)
      = Inr [''Maintained professional demeanor throughout interview'',
             ''Maintained professional demeanor throughout interview'',
             ''Maintained professional demeanor throughout interview'']"
    by code_simp
  have ai: "map_sum id areas_for_improvement (generate_fallback_analysis (13 / 2) 2 ?qa)
      = Inr [''Interview concluded early with only 2 questions covered'',
             ''Showed uncertainty in 1 responses, indicating knowledge gaps'',
             ''Many responses were brief (2/2), lacking technical depth'']"
    by code_simp
  from texts C10_fallback_lists_have_three_elements [of ?qa "13 / 2" 2]
  obtain a where a: "generate_fallback_analysis (13 / 2) 2 ?qa = Inr a"
    by blast
  with C10_fallback_lists_have_three_elements [of ?qa "13 / 2" 2 a]
  have "length (key_strengths a) = 3 \<and> length (areas_for_improvement a) = 3"
    by blast
  moreover from ks ai a have "key_strengths a =
          [''Maintained professional demeanor throughout interview'',
           ''Maintained professional demeanor throughout interview'',
           ''Maintained professional demeanor throughout interview''] \<and>
        areas_for_improvement a =
          [''Interview concluded early with only 2 questions covered'',
           ''Showed uncertainty in 1 responses, indicating knowledge gaps'',
           ''Many responses were brief (2/2), lacking technical depth'']"
    by simp
  ultimately show ?thesis using texts a by blast
qed

subsection \<open>Silence segmentation\<close>

lemma strip_hello: "strip ''hello'' = ''hello''"
  by (simp add: strip_def lstrip_def rstrip_def is_space_def)

lemma strip_world: "strip ''world'' = ''world''"
  by (simp add: strip_def lstrip_def rstrip_def is_space_def)

lemma strip_joined: "strip ''hello world '' = ''hello world''"
  by (simp add: strip_def lstrip_def rstrip_def is_space_def)

lemma not_isspace_joined: "\<not> isspace ''hello world''"
  by (simp add: isspace_def is_space_def)

lemma after_fragments:
  assumes "is_running p" "is_listening p" "current_transcript p = []"
  shows "run_timeline p [FinalFragment t1 ''hello'', FinalFragment t2 ''world'']
    = ([Emit ''final_transcript_part'' [(''text'', PyStr ''hello'')], SpawnSilenceCheck,
        Emit ''final_transcript_part'' [(''text'', PyStr ''world'')], SpawnSilenceCheck],
       p\<lparr> current_transcript := ''hello world '', last_final_time := Some t2 \<rparr>)"
  using assms
  by (simp add: process_response_def strip_hello strip_world)

lemma check_fires:
  assumes "is_listening q" "current_transcript q = ''hello world ''" "last_final_time q = Some t"
    "t \<noteq> 0" "SILENCE_THRESHOLD \<le> now - t"
  shows "check_silence q now
    = ([Callback ''hello world''], q\<lparr> current_transcript := [], last_final_time := None \<rparr>)"
  using assms
  by (simp add: check_silence_def check_silence_test_def check_silence_commit_def
      strip_joined not_isspace_joined Let_def)

lemma check_early:
  assumes "last_final_time q = Some t" "now - t < SILENCE_THRESHOLD"
  shows "check_silence q now = ([], q)"
  using assms
  by (simp add: check_silence_def check_silence_test_def check_silence_commit_def)

lemma check_cleared:
  assumes "last_final_time q = None"
  shows "check_silence q now = ([], q)"
  using assms
  by (simp add: check_silence_def check_silence_test_def check_silence_commit_def)

lemma order_first:
  assumes "t1 \<le> t2" "t2 - t1 < SILENCE_THRESHOLD" "SILENCE_THRESHOLD \<le> c1 - t1"
    "SILENCE_THRESHOLD \<le> c2 - t2" "c1 \<le> c2"
  shows "in_order_of_time [FinalFragment t1 a, FinalFragment t2 b, SilenceCheck c1, SilenceCheck c2]
     = [FinalFragment t1 a, FinalFragment t2 b, SilenceCheck c1, SilenceCheck c2]"
    and "in_order_of_time [FinalFragment t1 a, FinalFragment t2 b, SilenceCheck c2, SilenceCheck c1]
     = (if c1 = c2 then [FinalFragment t1 a, FinalFragment t2 b, SilenceCheck c2, SilenceCheck c1]
        else [FinalFragment t1 a, FinalFragment t2 b, SilenceCheck c1, SilenceCheck c2])"
  using assms by (auto simp: in_order_of_time_def SILENCE_THRESHOLD_def)

lemma order_second:
  assumes "t1 \<le> t2" "t2 - t1 < SILENCE_THRESHOLD" "SILENCE_THRESHOLD \<le> c1 - t1"
    "SILENCE_THRESHOLD \<le> c2 - t2" "c2 < c1"
  shows "in_order_of_time [FinalFragment t1 a, FinalFragment t2 b, SilenceCheck c1, SilenceCheck c2]
     = [FinalFragment t1 a, FinalFragment t2 b, SilenceCheck c2, SilenceCheck c1]"
    and "in_order_of_time [FinalFragment t1 a, FinalFragment t2 b, SilenceCheck c2, SilenceCheck c1]
     = [FinalFragment t1 a, FinalFragment t2 b, SilenceCheck c2, SilenceCheck c1]"
  using assms by (auto simp: in_order_of_time_def SILENCE_THRESHOLD_def)

lemma run_timeline_append:
  "run_timeline p (xs @ ys) =
     (let (es, p1) = run_timeline p xs; (es', p2) = run_timeline p1 ys in (es @ es', p2))"
  by (induction xs arbitrary: p) (auto simp: Let_def split: prod.splits)

lemma callbacks_append: "callbacks (xs @ ys) = callbacks xs @ callbacks ys"
  by (induction xs rule: callbacks.induct) auto

lemma two_checks:
  assumes "is_listening q" "current_transcript q = ''hello world ''" "last_final_time q = Some t"
    "t \<noteq> 0" "SILENCE_THRESHOLD \<le> d2 - t" "d1 \<le> d2"
  shows "callbacks (fst (run_timeline q [SilenceCheck d1, SilenceCheck d2])) = [''hello world'']"
proof (cases "SILENCE_THRESHOLD \<le> d1 - t")
  case True
  from check_fires [OF assms(1-4) True] show ?thesis
    by (simp add: check_cleared)
next
  case False
  then have "d1 - t < SILENCE_THRESHOLD" by simp
  from check_early [OF assms(3) this] check_fires [OF assms(1-5)] show ?thesis
    by simp
qed

lemma fragments_then_checks:
  assumes "is_running p" "is_listening p" "current_transcript p = []"
    and "t2 \<noteq> 0" "SILENCE_THRESHOLD \<le> d2 - t2" "d1 \<le> d2"
  shows "callbacks (fst (run_timeline p
      [FinalFragment t1 ''hello'', FinalFragment t2 ''world'', SilenceCheck d1, SilenceCheck d2]))
    = [''hello world'']"
proof -
  let ?q = "p\<lparr> current_transcript := ''hello world '', last_final_time := Some t2 \<rparr>"
  have split: "[FinalFragment t1 ''hello'', FinalFragment t2 ''world'', SilenceCheck d1, SilenceCheck d2]
    = [FinalFragment t1 ''hello'', FinalFragment t2 ''world''] @ [SilenceCheck d1, SilenceCheck d2]"
    by simp
  have q: "is_listening ?q" "current_transcript ?q = ''hello world ''" "last_final_time ?q = Some t2"
    using assms(2) by simp_all
  have "callbacks (fst (run_timeline ?q [SilenceCheck d1, SilenceCheck d2])) = [''hello world'']"
    by (rule two_checks [OF q assms(4) assms(5) assms(6)])
  then show ?thesis
    unfolding split run_timeline_append after_fragments [OF assms(1-3)]
    by (simp add: callbacks_append split: prod.splits)
qed

text \<open>
  When each check runs its body with no other thread in between: fragments ``hello'' at
  \<open>t1\<close> and ``world'' at \<open>t2\<close> less than the silence threshold apart, checks waking at \<open>c1\<close>
  and \<open>c2\<close> no earlier than the threshold after their fragments, in the order of their
  times. The callback is called once, with ``hello world''.
\<close>

lemma checks_in_turn_call_back_once:
  assumes "is_running p" "is_listening p" "current_transcript p = []"
    and "0 < t1" "t1 \<le> t2" "t2 - t1 < SILENCE_THRESHOLD"
    and "SILENCE_THRESHOLD \<le> c1 - t1" "SILENCE_THRESHOLD \<le> c2 - t2"
  shows "callbacks (fst (run_timeline p (in_order_of_time
            [FinalFragment t1 ''hello'', FinalFragment t2 ''world'',
             SilenceCheck c1, SilenceCheck c2]))) = [''hello world''] \<and>
         callbacks (fst (run_timeline p (in_order_of_time
            [FinalFragment t1 ''hello'', FinalFragment t2 ''world'',
             SilenceCheck c2, SilenceCheck c1]))) = [''hello world'']"
proof -
  from assms(4,5) have nz: "t2 \<noteq> 0" by simp
  show ?thesis
  proof (cases "c1 \<le> c2")
    case True
    note ord = order_first [OF assms(5-8) True, of "''hello''" "''world''"]
    have a: "callbacks (fst (run_timeline p
        [FinalFragment t1 ''hello'', FinalFragment t2 ''world'', SilenceCheck c1, SilenceCheck c2]))
      = [''hello world'']"
      by (rule fragments_then_checks [OF assms(1-3) nz assms(8) True])
    have b: "c1 = c2 \<Longrightarrow> callbacks (fst (run_timeline p
        [FinalFragment t1 ''hello'', FinalFragment t2 ''world'', SilenceCheck c2, SilenceCheck c1]))
      = [''hello world'']"
      using fragments_then_checks [OF assms(1-3) nz, of c1 c2 t1] assms(8) by simp
    from a b show ?thesis unfolding ord by simp
  next
    case False
    then have lt: "c2 < c1" by simp
    note ord = order_second [OF assms(5-8) lt, of "''hello''" "''world''"]
    from lt assms(8) have late: "SILENCE_THRESHOLD \<le> c1 - t2" and le: "c2 \<le> c1" by simp_all
    have "callbacks (fst (run_timeline p
        [FinalFragment t1 ''hello'', FinalFragment t2 ''world'', SilenceCheck c2, SilenceCheck c1]))
      = [''hello world'']"
      by (rule fragments_then_checks [OF assms(1-3) nz late le])
    then show ?thesis unfolding ord by simp
  qed
qed

text \<open>
  C1. The claim holds for checks that run one after the other and fails for checks whose
  bodies interleave. ``hello'' arrives at 100 and ``world'' one millisecond later; both
  checks have slept their three seconds at 103.002. When the first check reads and writes
  before the second reads, the callback is called once. When both read before either
  writes, both find the threshold elapsed and the transcript ``hello world '', and each
  calls the callback with ``hello world'': two calls for one utterance.
\<close>

theorem C1_interleaved_checks_call_back_twice:
  "callbacks (fst (run_threads (start (init_processor 50)) Map.empty
        [Arrives 100 ''hello'', Arrives (100001 / 1000) ''world'',
         Tests 1 (51501 / 500), Commits 1, Tests 2 (51501 / 500), Commits 2]))
     = [''hello world''] \<and>
   callbacks (fst (run_threads (start (init_processor 50)) Map.empty
        [Arrives 100 ''hello'', Arrives (100001 / 1000) ''world'',
         Tests 1 (51501 / 500), Tests 2 (51501 / 500), Commits 1, Commits 2]))
     = [''hello world'', ''hello world'']"
  by (simp add: start_def init_processor_def process_response_def check_silence_test_def
      check_silence_commit_def strip_hello strip_world strip_joined not_isspace_joined
      SILENCE_THRESHOLD_def Let_def)

subsection \<open>The restart policy\<close>

lemma should_restart_iff:
  "fst (should_restart p now) \<longleftrightarrow>
     is_running p \<and> restart_count p < max_restarts \<and> restart_cooldown \<le> now - last_restart_time p"
  by (auto simp: should_restart_def)

lemma should_restart_true:
  "fst (should_restart p now) \<Longrightarrow>
   snd (should_restart p now) =
     p\<lparr> restart_count := restart_count p + 1, last_restart_time := now, audio_queue := [] \<rparr>"
  by (auto simp: should_restart_def split: if_splits)

lemma should_restart_false:
  "\<not> fst (should_restart p now) \<Longrightarrow> snd (should_restart p now) = p"
  by (auto simp: should_restart_def split: if_splits)

lemma restart_times_append:
  "restart_times (xs @ ys) = restart_times xs @ restart_times ys"
  by (induction xs rule: restart_times.induct) auto

lemma handle_outcome_restart:
  assumes "handle_outcome p ce outcome now = (step, acts, reopen_at, p1, ce1)"
  shows "(restart_times acts = [] \<and> last_restart_time p1 = last_restart_time p
            \<and> is_running p1 = is_running p) \<or>
         (restart_times acts = [now] \<and> last_restart_time p1 = now \<and> is_running p1
            \<and> is_running p \<and> restart_count p < max_restarts
            \<and> restart_cooldown \<le> now - last_restart_time p \<and> is_transient outcome
            \<and> step = Continue)"
  using assms
  by (cases outcome)
     (auto simp: handle_outcome_def should_restart_def is_transient_def Let_def
           split: if_splits prod.splits)

lemma handle_outcome_transient:
  assumes "is_transient outcome"
    and "handle_outcome p ce outcome now = (step, acts, reopen_at, p1, ce1)"
  shows "ce1 = ce + 1 \<and> (max_consecutive_errors \<le> ce + 1 \<longrightarrow> step = Break)"
  using assms
  by (cases outcome)
     (auto simp: handle_outcome_def is_transient_def Let_def split: if_splits prod.splits)

lemma stop_last_restart_time: "last_restart_time (stop p) = last_restart_time p"
  by (simp add: stop_def)

lemma stream_audio_spaced:
  "spaced (last_restart_time p) (restart_times (fst (stream_audio p ce events)))"
proof (induction events arbitrary: p ce)
  case Nil
  then show ?case by simp
next
  case (Cons ev events)
  show ?case
  proof (cases ev)
    case StopCalled
    with Cons.IH [of "stop p" ce] show ?thesis
      by (simp add: stop_last_restart_time)
  next
    case (StreamEnds outcome now)
    obtain step acts reopen_at p1 ce1
      where h: "handle_outcome p ce outcome now = (step, acts, reopen_at, p1, ce1)"
      by (cases "handle_outcome p ce outcome now") auto
    note r = handle_outcome_restart [OF h]
    show ?thesis
    proof (cases "step = Continue \<and> is_running p1 \<and> restart_count p1 < max_restarts")
      case True
      obtain later p2
        where l: "stream_audio (p1\<lparr> active_stream := True \<rparr>) ce1 events = (later, p2)"
        by (cases "stream_audio (p1\<lparr> active_stream := True \<rparr>) ce1 events") auto
      from Cons.IH [of "p1\<lparr> active_stream := True \<rparr>" ce1] l
      have sp: "spaced (last_restart_time p1) (restart_times later)" by simp
      from True h l StreamEnds
      have res: "fst (stream_audio p ce (ev # events)) = acts @ [OpenStream reopen_at] @ later"
        by simp
      from r sp show ?thesis
        unfolding res by (auto simp: restart_times_append)
    next
      case False
      with h StreamEnds
      have res: "fst (stream_audio p ce (ev # events)) = acts @ [Exit]"
        by (cases step) auto
      from r False show ?thesis
        unfolding res by (auto simp: restart_times_append)
    qed
  qed
qed

lemma stream_audio_not_running:
  "\<not> is_running p \<Longrightarrow> restart_times (fst (stream_audio p ce events)) = []"
proof (induction events arbitrary: p ce)
  case Nil
  then show ?case by simp
next
  case (Cons ev events)
  show ?case
  proof (cases ev)
    case StopCalled
    from Cons.prems have "\<not> is_running (stop p)" by (simp add: stop_def)
    from Cons.IH [OF this, of ce] StopCalled show ?thesis by simp
  next
    case (StreamEnds outcome now)
    obtain step acts reopen_at p1 ce1
      where h: "handle_outcome p ce outcome now = (step, acts, reopen_at, p1, ce1)"
      by (cases "handle_outcome p ce outcome now") auto
    from handle_outcome_restart [OF h] Cons.prems
    have r: "restart_times acts = []" "\<not> is_running p1" by auto
    with h StreamEnds have "fst (stream_audio p ce (ev # events)) = acts @ [Exit]"
      by (cases step) auto
    with r show ?thesis by (simp add: restart_times_append)
  qed
qed

lemma exited_append_Exit: "exited (xs @ [Exit])"
  by (simp add: exited_def)

lemma exited_prepend: "exited ys \<Longrightarrow> exited (xs @ ys)"
  by (simp add: exited_def)

lemma exited_open_iff: "exited (xs @ OpenStream t # ys) = exited ys"
  by (cases ys rule: rev_cases) (simp_all add: exited_def)

text \<open>One step of the worker, split by what the handler and the loop head decide.\<close>

lemma stream_audio_step:
  assumes "handle_outcome p ce outcome now = (step, acts, reopen_at, p1, ce1)"
  shows "stream_audio p ce (StreamEnds outcome now # events) =
     (if step = Continue \<and> is_running p1 \<and> restart_count p1 < max_restarts
      then (acts @ [OpenStream reopen_at]
              @ fst (stream_audio (p1\<lparr> active_stream := True \<rparr>) ce1 events),
            snd (stream_audio (p1\<lparr> active_stream := True \<rparr>) ce1 events))
      else (acts @ [Exit], p1))"
  using assms by (cases step) (auto split: prod.splits)

lemma exited_absorbs:
  "exited (fst (stream_audio p ce events)) \<Longrightarrow>
   stream_audio p ce (events @ rest) = stream_audio p ce events"
proof (induction events arbitrary: p ce)
  case Nil
  then show ?case by (simp add: exited_def)
next
  case (Cons ev events)
  show ?case
  proof (cases ev)
    case StopCalled
    with Cons.prems have "exited (fst (stream_audio (stop p) ce events))" by simp
    from Cons.IH [OF this] StopCalled show ?thesis by simp
  next
    case (StreamEnds outcome now)
    obtain step acts reopen_at p1 ce1
      where h: "handle_outcome p ce outcome now = (step, acts, reopen_at, p1, ce1)"
      by (cases "handle_outcome p ce outcome now") auto
    show ?thesis
    proof (cases "step = Continue \<and> is_running p1 \<and> restart_count p1 < max_restarts")
      case True
      with Cons.prems StreamEnds
      have "exited (acts @ [OpenStream reopen_at]
              @ fst (stream_audio (p1\<lparr> active_stream := True \<rparr>) ce1 events))"
        by (simp add: stream_audio_step [OF h] del: stream_audio.simps(3))
      then have "exited (fst (stream_audio (p1\<lparr> active_stream := True \<rparr>) ce1 events))"
        by (simp add: exited_open_iff)
      from Cons.IH [OF this] True StreamEnds show ?thesis
        by (simp add: stream_audio_step [OF h] del: stream_audio.simps(3))
    next
      case False
      with StreamEnds show ?thesis
        by (auto simp add: stream_audio_step [OF h] simp del: stream_audio.simps(3))
    qed
  qed
qed

lemma exited_after_prefix:
  assumes "\<And>p ce. exited (fst (stream_audio p ce events))"
  shows "exited (fst (stream_audio p ce (pre @ events)))"
proof (induction pre arbitrary: p ce)
  case Nil
  then show ?case by (simp add: assms)
next
  case (Cons ev pre)
  show ?case
  proof (cases ev)
    case StopCalled
    with Cons.IH [of "stop p" ce] show ?thesis by simp
  next
    case (StreamEnds outcome now)
    obtain step acts reopen_at p1 ce1
      where h: "handle_outcome p ce outcome now = (step, acts, reopen_at, p1, ce1)"
      by (cases "handle_outcome p ce outcome now") auto
    from Cons.IH [of "p1\<lparr> active_stream := True \<rparr>" ce1] StreamEnds show ?thesis
      by (simp add: stream_audio_step [OF h] exited_append_Exit exited_open_iff
        del: stream_audio.simps(3))
  qed
qed

lemma one_error_left:
  assumes "is_transient outcome" "max_consecutive_errors \<le> ce + 1"
  shows "exited (fst (stream_audio p ce (StreamEnds outcome now # events)))"
proof -
  obtain step acts reopen_at p1 ce1
    where h: "handle_outcome p ce outcome now = (step, acts, reopen_at, p1, ce1)"
    by (cases "handle_outcome p ce outcome now") auto
  from handle_outcome_transient [OF assms(1) h] assms(2) have "step = Break" by simp
  then show ?thesis
    by (simp add: stream_audio_step [OF h] exited_append_Exit del: stream_audio.simps(3))
qed

lemma errors_left:
  assumes "is_transient outcome"
    and "\<And>q. exited (fst (stream_audio q (ce + 1) events))"
  shows "exited (fst (stream_audio p ce (StreamEnds outcome now # events)))"
proof -
  obtain step acts reopen_at p1 ce1
    where h: "handle_outcome p ce outcome now = (step, acts, reopen_at, p1, ce1)"
    by (cases "handle_outcome p ce outcome now") auto
  from handle_outcome_transient [OF assms(1) h] have "ce1 = ce + 1" by simp
  with assms(2) [of "p1\<lparr> active_stream := True \<rparr>"] show ?thesis
    by (simp add: stream_audio_step [OF h] exited_append_Exit exited_open_iff
        del: stream_audio.simps(3))
qed

lemma three_errors_exit:
  assumes "is_transient o1" "is_transient o2" "is_transient o3"
  shows "exited (fst (stream_audio p ce
           [StreamEnds o1 t1, StreamEnds o2 t2, StreamEnds o3 t3]))"
proof -
  have third: "\<And>q. exited (fst (stream_audio q (ce + 1 + 1) [StreamEnds o3 t3]))"
    by (rule one_error_left [OF assms(3)]) (simp add: max_consecutive_errors_def)
  have second: "\<And>q. exited (fst (stream_audio q (ce + 1) [StreamEnds o2 t2, StreamEnds o3 t3]))"
    by (rule errors_left [OF assms(2) third])
  show ?thesis
    by (rule errors_left [OF assms(1) second])
qed

lemma run_worker_spaced:
  "spaced (last_restart_time p) (restart_times (fst (run_worker p t0 events)))"
  using stream_audio_spaced [of "p\<lparr> active_stream := True \<rparr>" 0 events]
  by (cases "stream_audio (p\<lparr> active_stream := True \<rparr>) 0 events")
     (simp add: run_worker_def)

lemma run_worker_not_running:
  "\<not> is_running p \<Longrightarrow> restart_times (fst (run_worker p t0 events)) = []"
  by (simp add: run_worker_def)

lemma run_worker_exit:
  assumes "is_transient o1" "is_transient o2" "is_transient o3"
  shows "exited (fst (run_worker p t0
           (pre @ [StreamEnds o1 t1, StreamEnds o2 t2, StreamEnds o3 t3])))"
    and "run_worker p t0 (pre @ [StreamEnds o1 t1, StreamEnds o2 t2, StreamEnds o3 t3] @ rest)
       = run_worker p t0 (pre @ [StreamEnds o1 t1, StreamEnds o2 t2, StreamEnds o3 t3])"
proof -
  let ?three = "[StreamEnds o1 t1, StreamEnds o2 t2, StreamEnds o3 t3]"
  have ex: "exited (fst (stream_audio q ce (pre @ ?three)))" for q ce
    by (rule exited_after_prefix) (rule three_errors_exit [OF assms])
  have ab: "stream_audio q ce ((pre @ ?three) @ rest) = stream_audio q ce (pre @ ?three)" for q ce
    by (rule exited_absorbs [OF ex])
  show "exited (fst (run_worker p t0 (pre @ ?three)))"
    using ex [of "p\<lparr> active_stream := True \<rparr>" 0]
    by (auto simp: run_worker_def exited_def split: prod.splits)
  show "run_worker p t0 (pre @ ?three @ rest) = run_worker p t0 (pre @ ?three)"
    using ab [of "p\<lparr> active_stream := True \<rparr>" 0]
    by (simp add: run_worker_def)
qed

lemma handle_outcome_gate:
  "restart_times (fst (snd (handle_outcome p ce outcome now))) \<noteq> [] \<Longrightarrow>
   restart_times (fst (snd (handle_outcome p ce outcome now))) = [now] \<and>
   is_transient outcome \<and> is_running p \<and> restart_count p < max_restarts \<and>
   restart_cooldown \<le> now - last_restart_time p"
proof -
  obtain step acts reopen_at p1 ce1
    where h: "handle_outcome p ce outcome now = (step, acts, reopen_at, p1, ce1)"
    by (cases "handle_outcome p ce outcome now") auto
  assume "restart_times (fst (snd (handle_outcome p ce outcome now))) \<noteq> []"
  with handle_outcome_restart [OF h] h show ?thesis by auto
qed

text \<open>
  What holds of the restarts that \<^verbatim>\<open>_should_restart\<close> counts: it answers yes exactly when the
  processor is running, the counter is below its ceiling and the cooldown has elapsed since
  the last counted restart; a handler makes a counted restart only for a transient error
  and only then; in every run of the worker two successive counted restarts are at least
  the cooldown apart, and none is made once the processor is not running; after three
  consecutive transient errors, whatever came before them, the worker has left its loop and
  what follows changes nothing.
\<close>

lemma counted_restarts_policy:
  "(fst (should_restart p now) \<longleftrightarrow>
      is_running p \<and> restart_count p < max_restarts
      \<and> restart_cooldown \<le> now - last_restart_time p) \<and>
   (restart_times (fst (snd (handle_outcome p ce outcome now))) \<noteq> [] \<longrightarrow>
      restart_times (fst (snd (handle_outcome p ce outcome now))) = [now] \<and>
      is_transient outcome \<and> is_running p \<and> restart_count p < max_restarts \<and>
      restart_cooldown \<le> now - last_restart_time p) \<and>
   spaced (last_restart_time p) (restart_times (fst (run_worker p t0 events))) \<and>
   (\<not> is_running p \<longrightarrow> restart_times (fst (run_worker p t0 events)) = []) \<and>
   (is_transient o1 \<and> is_transient o2 \<and> is_transient o3 \<longrightarrow>
      exited (fst (run_worker p t0
        (pre @ [StreamEnds o1 t1, StreamEnds o2 t2, StreamEnds o3 t3]))) \<and>
      run_worker p t0 (pre @ [StreamEnds o1 t1, StreamEnds o2 t2, StreamEnds o3 t3] @ rest)
        = run_worker p t0 (pre @ [StreamEnds o1 t1, StreamEnds o2 t2, StreamEnds o3 t3]))"
proof (intro conjI impI)
  show "fst (should_restart p now) \<longleftrightarrow>
      is_running p \<and> restart_count p < max_restarts
      \<and> restart_cooldown \<le> now - last_restart_time p"
    by (rule should_restart_iff)
next
  assume r: "restart_times (fst (snd (handle_outcome p ce outcome now))) \<noteq> []"
  note g = handle_outcome_gate [OF r]
  from g show "restart_times (fst (snd (handle_outcome p ce outcome now))) = [now]" by simp
  from g show "is_transient outcome" by simp
  from g show "is_running p" by simp
  from g show "restart_count p < max_restarts" by simp
  from g show "restart_cooldown \<le> now - last_restart_time p" by simp
next
  show "spaced (last_restart_time p) (restart_times (fst (run_worker p t0 events)))"
    by (rule run_worker_spaced)
next
  assume "\<not> is_running p"
  then show "restart_times (fst (run_worker p t0 events)) = []"
    by (rule run_worker_not_running)
next
  assume t: "is_transient o1 \<and> is_transient o2 \<and> is_transient o3"
  then show "exited (fst (run_worker p t0
        (pre @ [StreamEnds o1 t1, StreamEnds o2 t2, StreamEnds o3 t3])))"
    by (intro run_worker_exit(1)) simp_all
  from t show "run_worker p t0
        (pre @ [StreamEnds o1 t1, StreamEnds o2 t2, StreamEnds o3 t3] @ rest)
      = run_worker p t0 (pre @ [StreamEnds o1 t1, StreamEnds o2 t2, StreamEnds o3 t3])"
    by (intro run_worker_exit(2)) simp_all
qed

text \<open>
  C2. The claim holds of the handler of \<^verbatim>\<open>Unknown\<close> ``iterating requests'' and fails in the
  handler of \<^verbatim>\<open>ServiceUnavailable\<close>, \<^verbatim>\<open>DeadlineExceeded\<close> and \<^verbatim>\<open>ConnectionError\<close>. The
  worker of a started processor opens its stream at 60; an error at 100 passes the gate:
  restart number 1, a sleep of one second, the stream opened again at 101. A second error
  comes at 101.5, inside the cooldown, and \<^verbatim>\<open>_should_restart\<close> answers no. After an
  ``iterating requests'' error the worker leaves its loop. After a recoverable error the
  handler has no \<^verbatim>\<open>break\<close> there: the loop goes on and opens the next stream at once,
  1.5 seconds after the restart before it, uncounted and without a sleep.
\<close>

theorem C2_recoverable_error_reopens_within_cooldown:
  "fst (run_worker (start (init_processor 50)) 60
          [StreamEnds Recoverable 100, StreamEnds Recoverable (203 / 2)])
     = [OpenStream 60, CountedRestart 100 1, Sleep 1, OpenStream 101, OpenStream (203 / 2)] \<and>
   fst (should_restart
          (snd (run_worker (start (init_processor 50)) 60 [StreamEnds Recoverable 100]))
          (203 / 2)) = False \<and>
   (203 / 2 :: rat) - 100 < restart_cooldown \<and>
   fst (run_worker (start (init_processor 50)) 60
          [StreamEnds UnknownIterating 100, StreamEnds UnknownIterating (203 / 2)])
     = [OpenStream 60, CountedRestart 100 1, Sleep 1, OpenStream 101, Exit]"
  by (simp add: run_worker_def start_def init_processor_def handle_outcome_def
      should_restart_def max_restarts_def restart_cooldown_def max_consecutive_errors_def
      backoff_def Let_def)

subsection \<open>A reply that is not JSON\<close>




lemma clean_example: "clean_transcript example_collaborators t = strip t"
  by (cases "t = []")
     (simp_all add: clean_transcript_def example_collaborators_def corrections_def strip_def
        lstrip_def rstrip_def)



subsection \<open>A stop request before the minimum of questions\<close>

lemma history_with_processor: "chat_history (with_processor f s) = chat_history s"
  by (simp add: with_processor_def)

lemma running_with_processor: "session_running (with_processor f s) = session_running s"
  by (simp add: with_processor_def)

lemma history_speech_ended: "chat_history (handle_ai_speech_ended s) = chat_history s"
  by (simp add: handle_ai_speech_ended_def history_with_processor)

lemma stop_below_minimum:
  assumes "3 \<le> length (clean_transcript env raw_text)"
    and "check_stop_command (clean_transcript env raw_text)"
    and "get_question_count (chat_history s) < MIN_QUESTIONS"
  shows "process_user_transcript env s raw_text =
           ([Emit ''ai_message''
               [(''text'', PyStr (confirmation_message (get_question_count (chat_history s)))),
                (''audio'', PyStr (synthesize_speech env
                    (confirmation_message (get_question_count (chat_history s))))),
                (''requires_confirmation'', PyBool True)]],
            with_processor mute s)"
proof -
  from assms(1) have "clean_transcript env raw_text \<noteq> []"
    "\<not> length (clean_transcript env raw_text) < 3"
    by auto
  with assms(2,3) show ?thesis
    by (simp add: process_user_transcript_def Let_def)
qed

text \<open>
  C5 (as the claim states it, refuted). The session has one question asked. The candidate
  says ``let's stop the interview'' and the confirmation is sent; the client plays it and
  the candidate answers ``yes, stop the interview''. The answer is tested for stop intent
  like any utterance: the same confirmation is sent a second time, the history has not
  changed and the session is still running.
\<close>

theorem C5_answer_is_tested_for_stop_intent:
  "get_question_count (chat_history example_session) = 1 \<and>
   ai_messages (fst (converse example_collaborators example_session
       [''let's stop the interview'']))
     = [[(''text'', PyStr (confirmation_message 1)), (''audio'', PyStr ''UklGRg==''),
         (''requires_confirmation'', PyBool True)]] \<and>
   ai_messages (fst (converse example_collaborators example_session
       [''let's stop the interview'', ''yes, stop the interview'']))
     = [[(''text'', PyStr (confirmation_message 1)), (''audio'', PyStr ''UklGRg==''),
         (''requires_confirmation'', PyBool True)],
        [(''text'', PyStr (confirmation_message 1)), (''audio'', PyStr ''UklGRg==''),
         (''requires_confirmation'', PyBool True)]] \<and>
   chat_history (snd (converse example_collaborators example_session
       [''let's stop the interview'', ''yes, stop the interview'']))
     = chat_history example_session \<and>
   session_running (snd (converse example_collaborators example_session
       [''let's stop the interview'', ''yes, stop the interview'']))"
proof -
  have clean1: "clean_transcript example_collaborators ''let's stop the interview''
      = ''let's stop the interview''"
    unfolding clean_example by code_simp
  have clean2: "clean_transcript example_collaborators ''yes, stop the interview''
      = ''yes, stop the interview''"
    unfolding clean_example by code_simp
  have stop1: "check_stop_command ''let's stop the interview''"
    by code_simp
  have stop2: "check_stop_command ''yes, stop the interview''"
    by code_simp
  have count: "get_question_count (chat_history example_session) = 1"
    by (simp add: example_session_def get_question_count_def has_key_def)
  have speech: "synthesize_speech example_collaborators t = ''UklGRg==''" for t
    by (simp add: example_collaborators_def)
  have running: "session_running example_session"
    by (simp add: example_session_def)
  have first: "process_user_transcript example_collaborators s ''let's stop the interview''
      = ([Emit ''ai_message''
            [(''text'', PyStr (confirmation_message 1)), (''audio'', PyStr ''UklGRg==''),
             (''requires_confirmation'', PyBool True)]],
         with_processor mute s)"
    if "chat_history s = chat_history example_session" for s
    using stop_below_minimum [of example_collaborators "''let's stop the interview''" s] that
    by (simp add: clean1 stop1 count speech MIN_QUESTIONS_def)
  have second: "process_user_transcript example_collaborators s ''yes, stop the interview''
      = ([Emit ''ai_message''
            [(''text'', PyStr (confirmation_message 1)), (''audio'', PyStr ''UklGRg==''),
             (''requires_confirmation'', PyBool True)]],
         with_processor mute s)"
    if "chat_history s = chat_history example_session" for s
    using stop_below_minimum [of example_collaborators "''yes, stop the interview''" s] that
    by (simp add: clean2 stop2 count speech MIN_QUESTIONS_def)
  have kept: "chat_history (handle_ai_speech_ended (with_processor mute example_session))
      = chat_history example_session"
    by (simp add: history_speech_ended history_with_processor)
  have still: "session_running (handle_ai_speech_ended (with_processor mute
        (handle_ai_speech_ended (with_processor mute example_session))))"
    by (simp add: handle_ai_speech_ended_def running_with_processor running)
  show ?thesis
    using still
    by (simp add: count first second kept history_speech_ended history_with_processor)
qed

text \<open>
  C5 (amended). For a completed utterance of at least three characters with a stop phrase,
  in a session with fewer than the minimum of questions asked: \<^verbatim>\<open>process_user_transcript\<close>
  mutes the processor and sends one \<^verbatim>\<open>ai_message\<close> with the confirmation text, its audio
  and \<^verbatim>\<open>requires_confirmation\<close> true; the running flag and the history are as before, so
  nothing records that a confirmation is pending. The utterance after it is handled like
  any other: when it has a stop phrase too, the same confirmation is sent again.
\<close>

theorem C5_stop_below_minimum_asks_for_confirmation:
  assumes long: "3 \<le> length (clean_transcript env raw_text)"
    and stop_intent: "check_stop_command (clean_transcript env raw_text)"
    and few: "get_question_count (chat_history s) < MIN_QUESTIONS"
    and long_answer: "3 \<le> length (clean_transcript env answer)"
    and stop_again: "check_stop_command (clean_transcript env answer)"
  shows "process_user_transcript env s raw_text =
           ([Emit ''ai_message''
               [(''text'', PyStr (confirmation_message (get_question_count (chat_history s)))),
                (''audio'', PyStr (synthesize_speech env
                    (confirmation_message (get_question_count (chat_history s))))),
                (''requires_confirmation'', PyBool True)]],
            with_processor mute s) \<and>
         session_running (snd (process_user_transcript env s raw_text)) = session_running s \<and>
         chat_history (snd (process_user_transcript env s raw_text)) = chat_history s \<and>
         fst (process_user_transcript env
               (handle_ai_speech_ended (snd (process_user_transcript env s raw_text))) answer)
           = fst (process_user_transcript env s raw_text)"
proof -
  note first = stop_below_minimum [OF long stop_intent few]
  let ?s1 = "handle_ai_speech_ended (with_processor mute s)"
  have hist: "chat_history ?s1 = chat_history s"
    by (simp add: history_speech_ended history_with_processor)
  from few have "get_question_count (chat_history ?s1) < MIN_QUESTIONS"
    by (simp add: hist)
  note second = stop_below_minimum [OF long_answer stop_again this]
  show ?thesis
    unfolding first
    by (simp add: second hist history_with_processor running_with_processor)
qed

theorem C5_stop_below_minimum_witness:
  "3 \<le> length (clean_transcript example_collaborators ''let's stop the interview'') \<and>
   check_stop_command (clean_transcript example_collaborators ''let's stop the interview'') \<and>
   get_question_count (chat_history example_session) < MIN_QUESTIONS \<and>
   3 \<le> length (clean_transcript example_collaborators ''yes, stop the interview'') \<and>
   check_stop_command (clean_transcript example_collaborators ''yes, stop the interview'') \<and>
   process_user_transcript example_collaborators example_session ''let's stop the interview''
     = ([Emit ''ai_message''
           [(''text'', PyStr (confirmation_message 1)), (''audio'', PyStr ''UklGRg==''),
            (''requires_confirmation'', PyBool True)]],
        with_processor mute example_session) \<and>
   session_running (snd (process_user_transcript example_collaborators example_session
       ''let's stop the interview'')) \<and>
   fst (process_user_transcript example_collaborators
         (handle_ai_speech_ended (snd (process_user_transcript example_collaborators
             example_session ''let's stop the interview'')))
         ''yes, stop the interview'')
     = [Emit ''ai_message''
          [(''text'', PyStr (confirmation_message 1)), (''audio'', PyStr ''UklGRg==''),
           (''requires_confirmation'', PyBool True)]]"
proof -
  have clean1: "clean_transcript example_collaborators ''let's stop the interview''
      = ''let's stop the interview''"
    unfolding clean_example by code_simp
  have clean2: "clean_transcript example_collaborators ''yes, stop the interview''
      = ''yes, stop the interview''"
    unfolding clean_example by code_simp
  have long: "3 \<le> length (clean_transcript example_collaborators ''let's stop the interview'')"
    unfolding clean1 by simp
  have stop_intent:
    "check_stop_command (clean_transcript example_collaborators ''let's stop the interview'')"
    unfolding clean1 by code_simp
  have long_answer:
    "3 \<le> length (clean_transcript example_collaborators ''yes, stop the interview'')"
    unfolding clean2 by simp
  have stop_again:
    "check_stop_command (clean_transcript example_collaborators ''yes, stop the interview'')"
    unfolding clean2 by code_simp
  have count: "get_question_count (chat_history example_session) = 1"
    by (simp add: example_session_def get_question_count_def has_key_def)
  have few: "get_question_count (chat_history example_session) < MIN_QUESTIONS"
    unfolding count by (simp add: MIN_QUESTIONS_def)
  have speech: "synthesize_speech example_collaborators t = ''UklGRg==''" for t
    by (simp add: example_collaborators_def)
  have running: "session_running example_session"
    by (simp add: example_session_def)
  note inst = C5_stop_below_minimum_asks_for_confirmation
      [of example_collaborators "''let's stop the interview''" example_session
          "''yes, stop the interview''", OF long stop_intent few long_answer stop_again]
  have first: "process_user_transcript example_collaborators example_session
        ''let's stop the interview''
     = ([Emit ''ai_message''
           [(''text'', PyStr (confirmation_message 1)), (''audio'', PyStr ''UklGRg==''),
            (''requires_confirmation'', PyBool True)]],
        with_processor mute example_session)"
    using inst [THEN conjunct1] by (simp add: count speech)
  have still: "session_running (snd (process_user_transcript example_collaborators
       example_session ''let's stop the interview''))"
    using inst [THEN conjunct2, THEN conjunct1] running by simp
  have again: "fst (process_user_transcript example_collaborators
         (handle_ai_speech_ended (snd (process_user_transcript example_collaborators
             example_session ''let's stop the interview'')))
         ''yes, stop the interview'')
     = [Emit ''ai_message''
          [(''text'', PyStr (confirmation_message 1)), (''audio'', PyStr ''UklGRg==''),
           (''requires_confirmation'', PyBool True)]]"
    using inst [THEN conjunct2, THEN conjunct2, THEN conjunct2] first by simp
  from long stop_intent few long_answer stop_again first still again
  show ?thesis by blast
qed

subsection \<open>The report after the closing message\<close>

text \<open>
  C8 (as the claim states it, refuted). The interview ends on the candidate's request after
  four questions; the closing message has 33 words, so the wait is 9.6 seconds. The thread
  starts at 0 and the report takes five seconds to assemble. The wait begins when the
  assembly has ended: the two do not overlap, and \<^verbatim>\<open>interview_complete\<close> is sent at 14.6.
\<close>

theorem C8_wait_begins_after_assembly:
  "fst (end_interview_naturally example_collaborators example_session 4 True)
     = [Emit ''ai_message''
          [(''text'', PyStr (closing_message 4 True)), (''audio'', PyStr ''UklGRg==''),
           (''is_final'', PyBool True)],
        StartReportThread (48 / 5)] \<and>
   timed 0 5 (generate_and_send_report (Some \<lparr> total_questions = 4, detailed_qa = [] \<rparr>) (48 / 5))
     = [(AssembleReport, 0, 5),
        (SleepFor (48 / 5), 5, 73 / 5),
        (EmitComplete \<lparr> total_questions = 4, detailed_qa = [] \<rparr>, 73 / 5, 73 / 5)] \<and>
   \<not> concurrent (0, 5) (5, 73 / 5)"
proof -
  have words: "length (py_split (closing_message 4 True)) = 33"
    by code_simp
  have wait: "total_wait_time (closing_message 4 True) = 48 / 5"
    by (simp add: total_wait_time_def words)
  show ?thesis
    by (simp add: end_interview_naturally_def Let_def wait example_collaborators_def
        generate_and_send_report_def concurrent_def)
qed

text \<open>
  C8 (amended). \<^verbatim>\<open>end_interview_naturally\<close> stops the processor, clears the running flag,
  sends the closing message with \<^verbatim>\<open>is_final\<close> true and then starts the report thread with
  the wait computed from the words of the message. The thread assembles the report first;
  with a report it then sleeps for the wait and sends \<^verbatim>\<open>interview_complete\<close> when the
  sleep has ended, so that the assembly and the wait do not overlap and the report is
  sent once the time of the assembly and the wait have both passed; without a report it
  sends nothing.
\<close>

theorem C8_report_assembled_then_wait_then_delivery:
  "end_interview_naturally env s questions_asked user_initiated
     = ([Emit ''ai_message''
           [(''text'', PyStr (closing_message questions_asked user_initiated)),
            (''audio'', PyStr (synthesize_speech env
                (closing_message questions_asked user_initiated))),
            (''is_final'', PyBool True)],
         StartReportThread (total_wait_time (closing_message questions_asked user_initiated))],
        (with_processor stop s)\<lparr> session_running := False \<rparr>) \<and>
   timed clock assembly (generate_and_send_report (Some r) wait)
     = [(AssembleReport, clock, clock + assembly),
        (SleepFor wait, clock + assembly, clock + assembly + wait),
        (EmitComplete r, clock + assembly + wait, clock + assembly + wait)] \<and>
   \<not> concurrent (clock, clock + assembly) (clock + assembly, clock + assembly + wait) \<and>
   timed clock assembly (generate_and_send_report None wait)
     = [(AssembleReport, clock, clock + assembly)]"
  by (simp add: end_interview_naturally_def Let_def generate_and_send_report_def
      concurrent_def)

end
